theory Spec2Isabelle
  imports Main "HOL-Library.Sublist"
begin

section \<open>Python values the installer scripts compute with\<close>

text \<open>
  The two scripts (\<^verbatim>\<open>meshtastic_configuration_tool.py\<close>, the Tk front end with the apt
  retry logic, and \<^verbatim>\<open>meshtasticd_config_tool_V2.py\<close>, the GTK front end with
  \<^verbatim>\<open>SystemManager\<close>, \<^verbatim>\<open>StatusChecker\<close> and \<^verbatim>\<open>ThreadManager\<close>) talk to the operating
  system through \<^verbatim>\<open>subprocess.run\<close>, \<^verbatim>\<open>os.path.exists\<close>, \<^verbatim>\<open>open\<close>, \<^verbatim>\<open>time.sleep\<close> and
  \<^verbatim>\<open>logging\<close>.  A \<^verbatim>\<open>subprocess.CompletedProcess\<close> is a triple of exit status and the two
  captured streams; an exception is its class and the text \<^verbatim>\<open>str(e)\<close> yields.
\<close>

datatype completed = Completed (returncode: int) (stdout: string) (stderr: string)

datatype exn_class =
  TimeoutExpired | OSError | CalledProcessError | RuntimeError
  | MeshtasticError | ConfigurationError

datatype exn = Exn (cls: exn_class) (str: string)

text \<open>\<^verbatim>\<open>needle in hay\<close> on Python strings is the contiguous-substring test.\<close>

abbreviation py_in :: "string \<Rightarrow> string \<Rightarrow> bool" where
  "py_in needle hay \<equiv> sublist needle hay"

text \<open>
  \<^verbatim>\<open>str.strip()\<close> removes leading and trailing white space (the ASCII white space of
  \<^verbatim>\<open>str.isspace\<close>: tab, line feed, vertical tab, form feed, carriage return, the four
  separators 0x1C to 0x1F, and blank).
\<close>

definition is_space :: "char \<Rightarrow> bool" where
  "is_space c = (c \<in> set [CHR 0x09, CHR 0x0A, CHR 0x0B, CHR 0x0C, CHR 0x0D,
                           CHR 0x1C, CHR 0x1D, CHR 0x1E, CHR 0x1F, CHR 0x20])"

definition strip :: "string \<Rightarrow> string" where
  "strip s = rev (dropWhile is_space (rev (dropWhile is_space s)))"

text \<open>\<^verbatim>\<open>' '.join(xs)\<close>, \<^verbatim>\<open>str(n)\<close> for a natural number, and \<^verbatim>\<open>repr\<close> of a list of plain strings.\<close>

fun join :: "string \<Rightarrow> string list \<Rightarrow> string" where
  "join sep [] = []"
| "join sep [x] = x"
| "join sep (x # y # ys) = x @ sep @ join sep (y # ys)"

function str_nat :: "nat \<Rightarrow> string" where
  "str_nat n = (if n < 10 then [''0123456789'' ! n]
                else str_nat (n div 10) @ [''0123456789'' ! (n mod 10)])"
  by pat_completeness auto
termination
  by (relation "measure id") auto

definition repr_list :: "string list \<Rightarrow> string" where
  "repr_list xs = ''['' @ join '', '' (map (\<lambda>x. [CHR 0x27] @ x @ [CHR 0x27]) xs) @ '']''"

section \<open>The operating system\<close>

text \<open>
  The environment is an explicit state.  \<open>fs\<close> maps each existing path to its content
  (a device node has the empty content), \<open>procs\<close> lists the live processes with the files
  each holds open, \<open>interrupted\<close> says whether dpkg has half-configured packages, and
  \<open>now\<close> is what \<^verbatim>\<open>datetime.now().strftime('%Y%m%d_%H%M%S')\<close> yields.

  A command the model knows (\<open>tool\<close> below) has its usual effect and ends in time.  Any
  other command is served from \<open>script\<close>, one entry per run: the stand-in for a command
  under test whose outcome differs from one attempt to the next.  \<open>faults\<close> replaces the
  behaviour of chosen commands, to inject failures.  A \<open>behaviour\<close> either finishes with a
  result, or takes longer than any time limit of the caller (it is killed at the limit and
  \<^verbatim>\<open>subprocess.TimeoutExpired\<close> is raised; run without a limit it ends with the result
  given), or cannot be launched at all (\<^verbatim>\<open>OSError\<close>: not found, permission denied).
  An injected or scripted behaviour has no effect on files or processes.  File contents and
  captured output are text as Python sees it: the decoding done for \<^verbatim>\<open>text=True\<close> is not
  part of the model.

  \<open>trace\<close> records, in order, every command run with its outcome, every sleep, every log
  record and every dialog scheduled on the UI loop.  The pictographs that start some log
  messages in the source are left out of the message texts.
\<close>

datatype behaviour = Finishes completed | Overruns completed | Unlaunchable string

datatype event =
  Exec "string list" "exn + completed"
  | Sleep nat
  | LogInfo string
  | LogWarning string
  | LogError string
  | IdleAdd string string

record world =
  fs :: "string \<rightharpoonup> string"
  procs :: "(string \<times> string list) list"
  interrupted :: bool
  now :: string
  faults :: "string list \<Rightarrow> behaviour option"
  script :: "behaviour list"
  trace :: "event list"

definition emit :: "event \<Rightarrow> world \<Rightarrow> world" where
  "emit e w = w\<lparr>trace := trace w @ [e]\<rparr>"

definition logging_info :: "string \<Rightarrow> world \<Rightarrow> world" where
  "logging_info m = emit (LogInfo m)"

definition logging_warning :: "string \<Rightarrow> world \<Rightarrow> world" where
  "logging_warning m = emit (LogWarning m)"

definition logging_error :: "string \<Rightarrow> world \<Rightarrow> world" where
  "logging_error m = emit (LogError m)"

definition time_sleep :: "nat \<Rightarrow> world \<Rightarrow> world" where
  "time_sleep n = emit (Sleep n)"

definition os_path_exists :: "string \<Rightarrow> world \<Rightarrow> bool" where
  "os_path_exists p w = (fs w p \<noteq> None)"

text \<open>\<^verbatim>\<open>open(p, "r").read()\<close>: the content, or an exception when the file cannot be opened.\<close>

definition open_read :: "string \<Rightarrow> world \<Rightarrow> exn + string" where
  "open_read p w =
     (case fs w p of
        None \<Rightarrow> Inl (Exn OSError (''No such file or directory: '' @ p))
      | Some c \<Rightarrow> Inr c)"

subsection \<open>The commands the scripts invoke\<close>

definition holders :: "string \<Rightarrow> world \<Rightarrow> (string \<times> string list) list" where
  "holders f w = filter (\<lambda>p. f \<in> set (snd p)) (procs w)"

text \<open>\<^verbatim>\<open>lsof f\<close> lists the processes that have \<open>f\<close> open; it exits 1, printing nothing, when there is none.\<close>

definition lsof :: "string \<Rightarrow> world \<Rightarrow> completed \<times> world" where
  "lsof f w =
     (if holders f w = [] then (Completed 1 [] [], w)
      else (Completed 0 (''COMMAND'' @ concat (map (\<lambda>p. [CHR 0x0A] @ fst p) (holders f w))) [], w))"

text \<open>\<^verbatim>\<open>killall -9 names\<close> kills every process with one of the names; it exits 1 when it found none.\<close>

definition killall :: "string list \<Rightarrow> world \<Rightarrow> completed \<times> world" where
  "killall names w =
     (if filter (\<lambda>p. fst p \<in> set names) (procs w) = []
      then (Completed 1 [] ''no process found'', w)
      else (Completed 0 [] [], w\<lparr>procs := filter (\<lambda>p. fst p \<notin> set names) (procs w)\<rparr>))"

definition rm_f :: "string \<Rightarrow> world \<Rightarrow> completed \<times> world" where
  "rm_f f w = (Completed 0 [] [], w\<lparr>fs := (fs w)(f := None)\<rparr>)"

definition cp :: "string \<Rightarrow> string \<Rightarrow> world \<Rightarrow> completed \<times> world" where
  "cp src dst w =
     (case fs w src of
        None \<Rightarrow> (Completed 1 [] (''cp: cannot stat '' @ src), w)
      | Some c \<Rightarrow> (Completed 0 [] [], w\<lparr>fs := (fs w)(dst \<mapsto> c)\<rparr>))"

definition cat :: "string \<Rightarrow> world \<Rightarrow> completed \<times> world" where
  "cat f w =
     (case fs w f of
        None \<Rightarrow> (Completed 1 [] (''cat: '' @ f @ '': No such file or directory''), w)
      | Some c \<Rightarrow> (Completed 0 c [], w))"

text \<open>\<^verbatim>\<open>tee f\<close> replaces the content of \<open>f\<close> by its standard input and echoes it.\<close>

definition tee :: "string \<Rightarrow> string \<Rightarrow> world \<Rightarrow> completed \<times> world" where
  "tee f inp w = (Completed 0 inp [], w\<lparr>fs := (fs w)(f \<mapsto> inp)\<rparr>)"

definition dpkg_audit :: "world \<Rightarrow> completed \<times> world" where
  "dpkg_audit w =
     (if interrupted w
      then (Completed 0 ''The following packages are only half configured'' [], w)
      else (Completed 0 [] [], w))"

definition dpkg_configure :: "world \<Rightarrow> completed \<times> world" where
  "dpkg_configure w = (Completed 0 [] [], w\<lparr>interrupted := False\<rparr>)"

text \<open>
  \<^verbatim>\<open>raspi-config nonint ...\<close> switches the interface on in the running system; what it does
  to the boot configuration file is not part of the model.
\<close>

definition raspi_config :: "string list \<Rightarrow> world \<Rightarrow> completed \<times> world" where
  "raspi_config args w = (Completed 0 [] [], w)"

definition tool :: "string list \<Rightarrow> string \<Rightarrow> world \<Rightarrow> (completed \<times> world) option" where
  "tool argv inp w =
     (if argv = [''sudo'', ''dpkg'', ''--audit''] then Some (dpkg_audit w)
      else if argv = [''sudo'', ''dpkg'', ''--configure'', ''-a''] then Some (dpkg_configure w)
      else if argv = [''sudo'', ''killall'', ''-9'', ''apt'', ''apt-get'', ''dpkg'']
        then Some (killall [''apt'', ''apt-get'', ''dpkg''] w)
      else if take 2 argv = [''sudo'', ''raspi-config''] then Some (raspi_config (drop 2 argv) w)
      else (case argv of
              [s, p, a] \<Rightarrow>
                if s = ''sudo'' \<and> p = ''lsof'' then Some (lsof a w)
                else if s = ''sudo'' \<and> p = ''cat'' then Some (cat a w)
                else if s = ''sudo'' \<and> p = ''tee'' then Some (tee a inp w)
                else None
            | [s, p, a, b] \<Rightarrow>
                if s = ''sudo'' \<and> p = ''rm'' \<and> a = ''-f'' then Some (rm_f b w)
                else if s = ''sudo'' \<and> p = ''cp'' then Some (cp a b w)
                else None
            | _ \<Rightarrow> None))"

subsection \<open>\<^verbatim>\<open>subprocess.run\<close>\<close>

definition deliver ::
  "string list \<Rightarrow> nat option \<Rightarrow> behaviour \<Rightarrow> exn + completed" where
  "deliver argv timeout b =
     (case b of
        Finishes c \<Rightarrow> Inr c
      | Overruns c \<Rightarrow>
          (case timeout of
             None \<Rightarrow> Inr c
           | Some t \<Rightarrow>
               Inl (Exn TimeoutExpired
                     (''Command '' @ [CHR 0x27] @ repr_list argv @ [CHR 0x27]
                        @ '' timed out after '' @ str_nat t @ '' seconds'')))
      | Unlaunchable m \<Rightarrow> Inl (Exn OSError m))"

text \<open>The outcome of a command and the world it leaves, before the run is recorded.\<close>

definition respond ::
  "string list \<Rightarrow> nat option \<Rightarrow> string option \<Rightarrow> world \<Rightarrow> (exn + completed) \<times> world" where
  "respond argv timeout inp w =
     (case faults w argv of
        Some b \<Rightarrow> (deliver argv timeout b, w)
      | None \<Rightarrow>
          (case tool argv (case inp of None \<Rightarrow> [] | Some s \<Rightarrow> s) w of
             Some (c, w') \<Rightarrow> (Inr c, w')
           | None \<Rightarrow>
               (case script w of
                  [] \<Rightarrow> (Inr (Completed 0 [] []), w)
                | b # bs \<Rightarrow> (deliver argv timeout b, w\<lparr>script := bs\<rparr>))))"

text \<open>
  The behaviour a command shows when it is run, by the same three cases: an injected
  fault, else the result of a command the model knows, else the next entry of the script.
\<close>

definition reaction :: "string list \<Rightarrow> string option \<Rightarrow> world \<Rightarrow> behaviour" where
  "reaction argv inp w =
     (case faults w argv of
        Some b \<Rightarrow> b
      | None \<Rightarrow>
          (case tool argv (case inp of None \<Rightarrow> [] | Some s \<Rightarrow> s) w of
             Some (c, v) \<Rightarrow> Finishes c
           | None \<Rightarrow> (case script w of [] \<Rightarrow> Finishes (Completed 0 [] []) | b # bs \<Rightarrow> b)))"

text \<open>
  \<^verbatim>\<open>subprocess.run(argv, capture_output=True, text=True, timeout=..., input=...)\<close>: the
  result, or the exception raised.
\<close>

definition subprocess_run ::
  "string list \<Rightarrow> nat option \<Rightarrow> string option \<Rightarrow> world \<Rightarrow> (exn + completed) \<times> world" where
  "subprocess_run argv timeout inp w =
     (case respond argv timeout inp w of (r, w') \<Rightarrow> (r, emit (Exec argv r) w'))"

text \<open>
  The \<^verbatim>\<open>check=True\<close> argument: a non-zero exit status raises \<^verbatim>\<open>CalledProcessError\<close>.  Its
  message ends before the status number; the one caller that passes \<^verbatim>\<open>check=True\<close>
  swallows the exception unread.
\<close>

definition check_true :: "string list \<Rightarrow> exn + completed \<Rightarrow> exn + completed" where
  "check_true argv r =
     (case r of
        Inl e \<Rightarrow> Inl e
      | Inr c \<Rightarrow>
          if returncode c \<noteq> 0
          then Inl (Exn CalledProcessError
                     (''Command '' @ [CHR 0x27] @ repr_list argv @ [CHR 0x27]
                        @ '' returned non-zero exit status''))
          else Inr c)"

section \<open>Status checks\<close>

definition BOOT_CONFIG_FILE :: string where
  "BOOT_CONFIG_FILE = ''/boot/firmware/config.txt''"

text \<open>
  \<^verbatim>\<open>check_spi_status\<close> (the same body in both scripts): a device node of either chip
  select, and both directives in the boot configuration; a file that cannot be read counts
  as not configured.
\<close>

definition check_spi_status :: "world \<Rightarrow> bool" where
  "check_spi_status w =
     (let devices_exist =
            (os_path_exists ''/dev/spidev0.0'' w \<or> os_path_exists ''/dev/spidev0.1'' w);
          config_enabled =
            (case open_read BOOT_CONFIG_FILE w of
               Inl e \<Rightarrow> False
             | Inr config_content \<Rightarrow>
                 (let has_spi_param = py_in ''dtparam=spi=on'' config_content;
                      has_spi_overlay = py_in ''dtoverlay=spi0-0cs'' config_content
                  in has_spi_param \<and> has_spi_overlay))
      in devices_exist \<and> config_enabled)"

section \<open>Package-manager lock recovery and retry (Tk front end)\<close>

definition lock_files :: "string list" where
  "lock_files = [''/var/lib/dpkg/lock'', ''/var/lib/dpkg/lock-frontend'',
                 ''/var/cache/apt/archives/lock'']"

definition killall_apt :: "string list" where
  "killall_apt = [''sudo'', ''killall'', ''-9'', ''apt'', ''apt-get'', ''dpkg'']"

text \<open>
  \<^verbatim>\<open>check_and_fix_apt_locks\<close>, first part: \<^verbatim>\<open>dpkg --audit\<close>, and
  \<^verbatim>\<open>dpkg --configure -a\<close> (input \<^verbatim>\<open>"n\n"\<close>, limit 60 s) when the audit exits non-zero or
  prints something.  An exception of either command leaves the \<^verbatim>\<open>try\<close> block.
\<close>

definition audit_and_configure :: "world \<Rightarrow> (exn + unit) \<times> world" where
  "audit_and_configure w =
     (case subprocess_run [''sudo'', ''dpkg'', ''--audit''] None None w of
        (Inl e, w1) \<Rightarrow> (Inl e, w1)
      | (Inr result, w1) \<Rightarrow>
          if returncode result \<noteq> 0 \<or> strip (stdout result) \<noteq> [] then
            (case subprocess_run [''sudo'', ''dpkg'', ''--configure'', ''-a''] (Some 60)
                    (Some (''n'' @ [CHR 0x0A]))
                    (logging_warning ''dpkg appears to be interrupted, attempting to fix...'' w1) of
               (Inl e, w2) \<Rightarrow> (Inl e, w2)
             | (Inr result2, w2) \<Rightarrow>
                 if returncode result2 = 0
                 then (Inr (), logging_info ''dpkg configuration completed'' w2)
                 else (Inr (), logging_warning
                                 (''dpkg configure had issues: '' @ stderr result2) w2))
          else (Inr (), w1))"

text \<open>
  The first loop: for each lock file that exists, \<^verbatim>\<open>lsof\<close>; the file joins
  \<open>locks_found\<close> when \<^verbatim>\<open>lsof\<close> exits 0 and prints something.  The bare \<^verbatim>\<open>except: pass\<close>
  swallows an exception of \<^verbatim>\<open>lsof\<close>.
\<close>

fun scan_locks :: "string list \<Rightarrow> string list \<Rightarrow> world \<Rightarrow> string list \<times> world" where
  "scan_locks [] locks_found w = (locks_found, w)"
| "scan_locks (lock_file # rest) locks_found w =
     (if os_path_exists lock_file w then
        (case subprocess_run [''sudo'', ''lsof'', lock_file] None None w of
           (Inl e, w1) \<Rightarrow> scan_locks rest locks_found w1
         | (Inr result, w1) \<Rightarrow>
             if returncode result = 0 \<and> strip (stdout result) \<noteq> [] then
               scan_locks rest (locks_found @ [lock_file])
                 (logging_warning (''Lock file '' @ lock_file @ '' is held by process'') w1)
             else scan_locks rest locks_found w1)
      else scan_locks rest locks_found w)"

text \<open>
  The second loop, over \<open>locks_found\<close> only: \<^verbatim>\<open>lsof\<close> again, and \<^verbatim>\<open>rm -f\<close> (with
  \<^verbatim>\<open>check=True\<close>) when it exits non-zero.  Exceptions are swallowed per file.
\<close>

fun clear_locks :: "string list \<Rightarrow> world \<Rightarrow> world" where
  "clear_locks [] w = w"
| "clear_locks (lock_file # rest) w =
     (case subprocess_run [''sudo'', ''lsof'', lock_file] None None w of
        (Inl e, w1) \<Rightarrow> clear_locks rest w1
      | (Inr result, w1) \<Rightarrow>
          if returncode result \<noteq> 0 then
            (case subprocess_run [''sudo'', ''rm'', ''-f'', lock_file] None None w1 of
               (r, w2) \<Rightarrow>
                 (case check_true [''sudo'', ''rm'', ''-f'', lock_file] r of
                    Inl e \<Rightarrow> clear_locks rest w2
                  | Inr done \<Rightarrow>
                      clear_locks rest
                        (logging_info (''Removed stale lock file: '' @ lock_file) w2)))
          else clear_locks rest w1)"

text \<open>The body of the \<^verbatim>\<open>try\<close> block of \<^verbatim>\<open>check_and_fix_apt_locks\<close>.\<close>

definition check_and_fix_apt_locks_try :: "world \<Rightarrow> (exn + unit) \<times> world" where
  "check_and_fix_apt_locks_try w =
     (case audit_and_configure (logging_info ''Checking for apt lock issues...'' w) of
        (Inl e, w1) \<Rightarrow> (Inl e, w1)
      | (Inr u, w1) \<Rightarrow>
          (case scan_locks lock_files [] w1 of
             (locks_found, w2) \<Rightarrow>
               if locks_found \<noteq> [] then
                 (case subprocess_run killall_apt None None
                         (logging_info ''Attempting to kill apt-related processes...'' w2) of
                    (Inl e, w3) \<Rightarrow> (Inl e, w3)
                  | (Inr killed, w3) \<Rightarrow> (Inr (), clear_locks locks_found (time_sleep 2 w3)))
               else (Inr (), w2)))"

definition check_and_fix_apt_locks :: "world \<Rightarrow> bool \<times> world" where
  "check_and_fix_apt_locks w =
     (case check_and_fix_apt_locks_try w of
        (Inr u, w1) \<Rightarrow> (True, w1)
      | (Inl e, w1) \<Rightarrow>
          (False, logging_error (''Error checking/fixing apt locks: '' @ str e) w1))"

definition max_retries :: nat where
  "max_retries = 3"

definition retry_delay :: nat where
  "retry_delay = 10"

definition lock_error :: "completed \<Rightarrow> bool" where
  "lock_error result =
     (py_in ''Could not get lock'' (stderr result)
      \<or> py_in ''dpkg was interrupted'' (stderr result))"

text \<open>
  \<^verbatim>\<open>safe_apt_command\<close>, one pass of the loop body for the given \<open>attempt\<close>.  \<open>None\<close> is
  \<^verbatim>\<open>continue\<close>; \<open>Some (Inr (Some r))\<close> is \<^verbatim>\<open>return result\<close>; \<open>Some (Inl e)\<close> is an exception
  that leaves the function (\<^verbatim>\<open>raise\<close> on the last attempt, or an exception of the
  \<^verbatim>\<open>killall\<close> inside the time-out handler).
\<close>

definition safe_apt_attempt ::
  "nat \<Rightarrow> string list \<Rightarrow> nat \<Rightarrow> string option \<Rightarrow> world
     \<Rightarrow> (exn + completed option) option \<times> world" where
  "safe_apt_attempt attempt cmd_args timeout interactive_input w =
     (let w0 =
        (if attempt > 0 then
           time_sleep retry_delay
             (snd (check_and_fix_apt_locks
                (logging_info (''Retry attempt '' @ str_nat (attempt + 1) @ ''/''
                               @ str_nat max_retries @ '' for apt command...'') w)))
         else w)
      in
      case subprocess_run cmd_args (Some timeout)
             (case interactive_input of
                None \<Rightarrow> None
              | Some s \<Rightarrow> if s \<noteq> [] then Some s else None) w0 of
        (Inr result, w1) \<Rightarrow>
          if lock_error result then
            (if attempt < max_retries - 1 then
               (None, logging_warning (''Lock detected on attempt '' @ str_nat (attempt + 1)
                                       @ '', will retry...'') w1)
             else (Some (Inr (Some result)),
                   logging_error ''Failed to acquire apt lock after all retries'' w1))
          else (Some (Inr (Some result)), w1)
      | (Inl e, w1) \<Rightarrow>
          if cls e = TimeoutExpired then
            (let w2 = logging_warning
                        (''Command timed out on attempt '' @ str_nat (attempt + 1)) w1
             in if attempt < max_retries - 1 then
                  (case subprocess_run killall_apt None None w2 of
                     (Inl e2, w3) \<Rightarrow> (Some (Inl e2), w3)
                   | (Inr killed, w3) \<Rightarrow> (None, w3))
                else (Some (Inl e), logging_error ''Command timed out after all retries'' w2))
          else
            (let w2 = logging_error (''Error running apt command: '' @ str e) w1
             in if attempt < max_retries - 1 then (None, w2) else (Some (Inl e), w2)))"

text \<open>
  The loop \<^verbatim>\<open>for attempt in range(max_retries)\<close> over the attempts still to make; the
  \<^verbatim>\<open>return None\<close> after the loop is \<open>Inr None\<close>.
\<close>

fun safe_apt_attempts ::
  "nat list \<Rightarrow> string list \<Rightarrow> nat \<Rightarrow> string option \<Rightarrow> world
     \<Rightarrow> (exn + completed option) \<times> world" where
  "safe_apt_attempts [] cmd_args timeout interactive_input w = (Inr None, w)"
| "safe_apt_attempts (attempt # rest) cmd_args timeout interactive_input w =
     (case safe_apt_attempt attempt cmd_args timeout interactive_input w of
        (None, w1) \<Rightarrow> safe_apt_attempts rest cmd_args timeout interactive_input w1
      | (Some r, w1) \<Rightarrow> (r, w1))"

definition safe_apt_command ::
  "string list \<Rightarrow> nat \<Rightarrow> string option \<Rightarrow> world \<Rightarrow> (exn + completed option) \<times> world" where
  "safe_apt_command cmd_args timeout interactive_input w =
     safe_apt_attempts [0..<max_retries] cmd_args timeout interactive_input w"

text \<open>How often the lock recovery was entered: it logs one fixed line first.\<close>

definition recoveries :: "world \<Rightarrow> nat" where
  "recoveries w = length (filter (\<lambda>e. e = LogInfo ''Checking for apt lock issues...'') (trace w))"

section \<open>System operations and interface procedures (GTK front end)\<close>

definition DEFAULT_TIMEOUT :: nat where
  "DEFAULT_TIMEOUT = 300"

text \<open>
  \<^verbatim>\<open>SystemManager.run_command\<close>: \<^verbatim>\<open>timeout or DEFAULT_TIMEOUT\<close>, then \<^verbatim>\<open>subprocess.run\<close>;
  a time-out and any other exception are both re-raised as \<^verbatim>\<open>MeshtasticError\<close>.  The exit
  status of a command that ran is not looked at.
\<close>

definition run_command ::
  "string list \<Rightarrow> nat option \<Rightarrow> string option \<Rightarrow> world \<Rightarrow> (exn + completed) \<times> world" where
  "run_command cmd timeout input_text w =
     (let timeout' = (case timeout of
                        None \<Rightarrow> DEFAULT_TIMEOUT
                      | Some t \<Rightarrow> if t = 0 then DEFAULT_TIMEOUT else t)
      in case subprocess_run cmd (Some timeout') input_text w of
           (Inr result, w1) \<Rightarrow> (Inr result, w1)
         | (Inl e, w1) \<Rightarrow>
             if cls e = TimeoutExpired
             then (Inl (Exn MeshtasticError (''Command timed out: '' @ join '' '' cmd)), w1)
             else (Inl (Exn MeshtasticError (''Command failed: '' @ str e)), w1))"

definition run_sudo_command ::
  "string list \<Rightarrow> nat option \<Rightarrow> string option \<Rightarrow> world \<Rightarrow> (exn + completed) \<times> world" where
  "run_sudo_command cmd timeout input_text w =
     run_command (''sudo'' # cmd) timeout input_text w"

text \<open>\<^verbatim>\<open>SystemManager.backup_file\<close>: the path of the backup, or \<^verbatim>\<open>ConfigurationError\<close>.\<close>

definition backup_file :: "string \<Rightarrow> world \<Rightarrow> (exn + string) \<times> world" where
  "backup_file filepath w =
     (let timestamp = now w;
          backup_path = filepath @ ''.backup_'' @ timestamp
      in case run_sudo_command [''cp'', filepath, backup_path] None None w of
           (Inr copied, w1) \<Rightarrow> (Inr backup_path, w1)
         | (Inl e, w1) \<Rightarrow>
             (Inl (Exn ConfigurationError
                    (''Failed to backup '' @ filepath @ '': '' @ str e)), w1))"

datatype operation_result =
  OperationResult (success: bool) (message: string) (details: string)

text \<open>
  \<^verbatim>\<open>_enable_spi\<close>, from the point where the configuration has been read: the two
  directives, one comment header for both, and the write through \<^verbatim>\<open>sudo tee\<close> when
  something was added.
\<close>

definition enable_spi_edit :: "string \<Rightarrow> world \<Rightarrow> (exn + operation_result) \<times> world" where
  "enable_spi_edit config_content w =
     (let (content1, updated1, w1) =
            (if \<not> py_in ''dtparam=spi=on'' config_content
             then (config_content @ ''\<newline># SPI Configuration\<newline>dtparam=spi=on\<newline>'', True,
                   logging_info ''Added SPI parameter to config.txt'' w)
             else (config_content, False, w));
          (content2, updated2, w2) =
            (if \<not> py_in ''dtoverlay=spi0-0cs'' content1
             then ((if \<not> updated1 then content1 @ ''\<newline># SPI Configuration\<newline>'' else content1)
                     @ ''dtoverlay=spi0-0cs\<newline>'', True,
                   logging_info ''Added SPI overlay to config.txt'' w1)
             else (content1, updated1, w1))
      in case (if updated2 then
                 (case run_sudo_command [''tee'', BOOT_CONFIG_FILE] None (Some content2) w2 of
                    (Inl e, w3) \<Rightarrow> (Inl e, w3)
                  | (Inr written, w3) \<Rightarrow>
                      (Inr (), logging_info ''SPI configuration updated in config.txt'' w3))
               else (Inr (), logging_info ''SPI configuration already present in config.txt'' w2)) of
           (Inl e, w4) \<Rightarrow> (Inl e, w4)
         | (Inr u, w4) \<Rightarrow>
             (Inr (OperationResult True ''SPI enabled successfully'' []),
              logging_info ''SPI configuration complete. Reboot may be required.'' w4))"

text \<open>The body of the \<^verbatim>\<open>try\<close> block of \<^verbatim>\<open>_enable_spi\<close>.\<close>

definition enable_spi_try :: "world \<Rightarrow> (exn + operation_result) \<times> world" where
  "enable_spi_try w =
     (case run_sudo_command [''raspi-config'', ''nonint'', ''do_spi'', ''0''] None None
             (logging_info ''Enabling SPI interface...'' w) of
        (Inl e, w1) \<Rightarrow> (Inl e, w1)
      | (Inr enabled, w1) \<Rightarrow>
          (case backup_file BOOT_CONFIG_FILE w1 of
             (Inl e, w2) \<Rightarrow> (Inl e, w2)
           | (Inr backup_path, w2) \<Rightarrow>
               (case run_sudo_command [''cat'', BOOT_CONFIG_FILE] None None
                       (logging_info (''Backed up config.txt to '' @ backup_path) w2) of
                  (Inl e, w3) \<Rightarrow> (Inl e, w3)
                | (Inr result, w3) \<Rightarrow> enable_spi_edit (stdout result) w3)))"

text \<open>\<^verbatim>\<open>_enable_spi\<close>: every exception leaves as \<^verbatim>\<open>ConfigurationError\<close>.\<close>

definition enable_spi :: "world \<Rightarrow> (exn + operation_result) \<times> world" where
  "enable_spi w =
     (case enable_spi_try w of
        (Inr r, w1) \<Rightarrow> (Inr r, w1)
      | (Inl e, w1) \<Rightarrow>
          (Inl (Exn ConfigurationError (''SPI configuration failed: '' @ str e)), w1))"

text \<open>\<^verbatim>\<open>_enable_i2c\<close>, in the same three parts.\<close>

definition enable_i2c_edit :: "string \<Rightarrow> world \<Rightarrow> (exn + operation_result) \<times> world" where
  "enable_i2c_edit config_content w =
     (case (if \<not> py_in ''dtparam=i2c_arm=on'' config_content then
              (case run_sudo_command [''tee'', BOOT_CONFIG_FILE] None
                      (Some (config_content
                               @ ''\<newline># I2C Configuration\<newline>dtparam=i2c_arm=on\<newline>'')) w of
                 (Inl e, w1) \<Rightarrow> (Inl e, w1)
               | (Inr written, w1) \<Rightarrow>
                   (Inr (), logging_info ''Added I2C ARM parameter to config.txt'' w1))
            else (Inr (), logging_info ''I2C ARM parameter already present in config.txt'' w)) of
        (Inl e, w2) \<Rightarrow> (Inl e, w2)
      | (Inr u, w2) \<Rightarrow>
          (Inr (OperationResult True ''I2C enabled successfully'' []),
           logging_info ''I2C configuration complete. Reboot may be required.'' w2))"

definition enable_i2c_try :: "world \<Rightarrow> (exn + operation_result) \<times> world" where
  "enable_i2c_try w =
     (case run_sudo_command [''raspi-config'', ''nonint'', ''do_i2c'', ''0''] None None
             (logging_info ''Enabling I2C interface...'' w) of
        (Inl e, w1) \<Rightarrow> (Inl e, w1)
      | (Inr enabled, w1) \<Rightarrow>
          (case backup_file BOOT_CONFIG_FILE w1 of
             (Inl e, w2) \<Rightarrow> (Inl e, w2)
           | (Inr backup_path, w2) \<Rightarrow>
               (case run_sudo_command [''cat'', BOOT_CONFIG_FILE] None None
                       (logging_info (''Backed up config.txt to '' @ backup_path) w2) of
                  (Inl e, w3) \<Rightarrow> (Inl e, w3)
                | (Inr result, w3) \<Rightarrow> enable_i2c_edit (stdout result) w3)))"

definition enable_i2c :: "world \<Rightarrow> (exn + operation_result) \<times> world" where
  "enable_i2c w =
     (case enable_i2c_try w of
        (Inr r, w1) \<Rightarrow> (Inr r, w1)
      | (Inl e, w1) \<Rightarrow>
          (Inl (Exn ConfigurationError (''I2C configuration failed: '' @ str e)), w1))"

text \<open>
  \<^verbatim>\<open>_configure_meshadv_mini\<close>: no \<^verbatim>\<open>raspi-config\<close> step; one block under the marker
  \<^verbatim>\<open>MeshAdv Mini Configuration\<close>, and an information dialog scheduled on the UI loop after
  the write.
\<close>

definition meshadv_config :: string where
  "meshadv_config =
     ''\<newline># MeshAdv Mini Configuration\<newline># GPIO 4 configuration - turn on at boot\<newline>gpio=4=op,dh\<newline>\<newline># PPS configuration for GPS on GPIO 17\<newline>dtoverlay=pps-gpio,gpiopin=17\<newline>''"

definition configure_meshadv_mini_edit ::
  "string \<Rightarrow> world \<Rightarrow> (exn + operation_result) \<times> world" where
  "configure_meshadv_mini_edit config_content w =
     (case (if \<not> py_in ''MeshAdv Mini Configuration'' config_content then
              (case run_sudo_command [''tee'', BOOT_CONFIG_FILE] None
                      (Some (config_content @ meshadv_config)) w of
                 (Inl e, w1) \<Rightarrow> (Inl e, w1)
               | (Inr written, w1) \<Rightarrow>
                   (Inr (),
                    emit (IdleAdd ''Configuration Complete''
                            ''MeshAdv Mini configuration added.\<newline>Reboot required for changes to take effect.'')
                      (logging_info ''Reboot required for changes to take effect''
                        (logging_info ''MeshAdv Mini configuration added to config.txt'' w1))))
            else (Inr (), logging_info ''MeshAdv Mini configuration already present'' w)) of
        (Inl e, w2) \<Rightarrow> (Inl e, w2)
      | (Inr u, w2) \<Rightarrow>
          (Inr (OperationResult True ''MeshAdv Mini configured successfully'' []), w2))"

definition configure_meshadv_mini_try :: "world \<Rightarrow> (exn + operation_result) \<times> world" where
  "configure_meshadv_mini_try w =
     (case backup_file BOOT_CONFIG_FILE
             (logging_info ''Configuring MeshAdv Mini GPIO and PPS settings...'' w) of
        (Inl e, w2) \<Rightarrow> (Inl e, w2)
      | (Inr backup_path, w2) \<Rightarrow>
          (case run_sudo_command [''cat'', BOOT_CONFIG_FILE] None None
                  (logging_info (''Backed up config.txt to '' @ backup_path) w2) of
             (Inl e, w3) \<Rightarrow> (Inl e, w3)
           | (Inr result, w3) \<Rightarrow> configure_meshadv_mini_edit (stdout result) w3))"

definition configure_meshadv_mini :: "world \<Rightarrow> (exn + operation_result) \<times> world" where
  "configure_meshadv_mini w =
     (case configure_meshadv_mini_try w of
        (Inr r, w1) \<Rightarrow> (Inr r, w1)
      | (Inl e, w1) \<Rightarrow>
          (Inl (Exn ConfigurationError (''MeshAdv Mini configuration failed: '' @ str e)), w1))"

section \<open>Background operations (GTK front end)\<close>

text \<open>
  \<^verbatim>\<open>ThreadManager\<close> wraps a \<^verbatim>\<open>ThreadPoolExecutor\<close>.  The executor is a list of work items in
  submission order, each tagged with the operation identifier it was submitted under and
  its state; at most \<open>max_workers\<close> items run at a time, and a pending item starts as soon
  as a worker is free.  A future is the position of its work item.  The body of the worker
  (show the spinner, call the operation, hide the spinner, schedule the callback) is
  abstracted to the step \<open>worker_returns\<close>, which ends a running item whether the
  operation returned or raised.
\<close>

datatype fstate = Pending | Running | Done

record thread_manager =
  max_workers :: nat
  shut :: bool
  items :: "(string \<times> fstate) list"
  active_futures :: "nat list"

fun start_pending :: "nat \<Rightarrow> (string \<times> fstate) list \<Rightarrow> (string \<times> fstate) list" where
  "start_pending free [] = []"
| "start_pending free (item # rest) =
     (if snd item = Pending \<and> free > 0
      then (fst item, Running) # start_pending (free - 1) rest
      else item # start_pending free rest)"

definition dispatch :: "thread_manager \<Rightarrow> thread_manager" where
  "dispatch tm =
     tm\<lparr>items := start_pending
                    (max_workers tm - length (filter (\<lambda>item. snd item = Running) (items tm)))
                    (items tm)\<rparr>"

text \<open>\<^verbatim>\<open>executor.submit\<close> raises \<^verbatim>\<open>RuntimeError\<close> after \<^verbatim>\<open>shutdown\<close>; it has no other refusal.\<close>

definition executor_submit :: "string \<Rightarrow> thread_manager \<Rightarrow> (exn + nat) \<times> thread_manager" where
  "executor_submit operation_id tm =
     (if shut tm
      then (Inl (Exn RuntimeError ''cannot schedule new futures after shutdown''), tm)
      else (Inr (length (items tm)), dispatch (tm\<lparr>items := items tm @ [(operation_id, Pending)]\<rparr>)))"

definition future_done :: "thread_manager \<Rightarrow> nat \<Rightarrow> bool" where
  "future_done tm f = (f < length (items tm) \<and> snd (items tm ! f) = Done)"

text \<open>
  \<^verbatim>\<open>ThreadManager.submit_task\<close>: submit, remember the future, forget the futures that are done.
\<close>

definition submit_task :: "string \<Rightarrow> thread_manager \<Rightarrow> (exn + nat) \<times> thread_manager" where
  "submit_task operation_id tm =
     (case executor_submit operation_id tm of
        (Inl e, tm1) \<Rightarrow> (Inl e, tm1)
      | (Inr future, tm1) \<Rightarrow>
          (Inr future,
           tm1\<lparr>active_futures :=
                  filter (\<lambda>f. \<not> future_done tm1 f) (active_futures tm1 @ [future])\<rparr>))"

text \<open>
  \<^verbatim>\<open>_run_operation_with_progress\<close>: wraps the operation in the worker and submits it.  The
  operation identifier is used for the progress dialog only; it is not looked up before
  submitting.
\<close>

definition run_operation_with_progress ::
  "string \<Rightarrow> thread_manager \<Rightarrow> (exn + unit) \<times> thread_manager" where
  "run_operation_with_progress operation_id tm =
     (case submit_task operation_id tm of
        (Inl e, tm1) \<Rightarrow> (Inl e, tm1)
      | (Inr future, tm1) \<Rightarrow> (Inr (), tm1))"

definition worker_returns :: "nat \<Rightarrow> thread_manager \<Rightarrow> thread_manager" where
  "worker_returns f tm =
     (if f < length (items tm) \<and> snd (items tm ! f) = Running
      then dispatch (tm\<lparr>items := (items tm)[f := (fst (items tm ! f), Done)]\<rparr>)
      else tm)"

section \<open>Reading the trace\<close>

text \<open>The file a command line of the form \<^verbatim>\<open>sudo rm -f f\<close> deletes.\<close>

definition rm_target :: "string list \<Rightarrow> string option" where
  "rm_target argv =
     (case argv of
        [s, p, a, f] \<Rightarrow> if s = ''sudo'' \<and> p = ''rm'' \<and> a = ''-f'' then Some f else None
      | _ \<Rightarrow> None)"

text \<open>The event is a holder check of \<open>f\<close> that reported no holding process (\<^verbatim>\<open>lsof\<close> exited non-zero).\<close>

definition reports_free :: "string \<Rightarrow> event \<Rightarrow> bool" where
  "reports_free f e =
     (case e of
        Exec argv r \<Rightarrow>
          argv = [''sudo'', ''lsof'', f]
          \<and> (case r of Inl x \<Rightarrow> False | Inr c \<Rightarrow> returncode c \<noteq> 0)
      | _ \<Rightarrow> False)"

text \<open>
  Every deletion in the event list comes directly after a holder check of the same file
  that reported no holding process; \<open>prev\<close> is the event before the list.
\<close>

fun removals_checked :: "event option \<Rightarrow> event list \<Rightarrow> bool" where
  "removals_checked prev [] = True"
| "removals_checked prev (e # es) =
     ((case e of
         Exec argv r \<Rightarrow>
           (case rm_target argv of
              None \<Rightarrow> True
            | Some f \<Rightarrow> (case prev of None \<Rightarrow> False | Some q \<Rightarrow> reports_free f q))
       | _ \<Rightarrow> True)
      \<and> removals_checked (Some e) es)"

text \<open>What a call added to the trace.\<close>

definition added :: "world \<Rightarrow> world \<Rightarrow> event list" where
  "added w w' = drop (length (trace w)) (trace w')"

text \<open>The event list has a write of the file through \<^verbatim>\<open>sudo tee\<close>.\<close>

definition writes_file :: "string \<Rightarrow> event list \<Rightarrow> bool" where
  "writes_file f es =
     list_ex (\<lambda>e. case e of Exec argv r \<Rightarrow> argv = [''sudo'', ''tee'', f] | _ \<Rightarrow> False) es"




section \<open>Notions used in the proofs\<close>

text \<open>
  \<open>same\<close>, \<open>still\<close> and \<open>ext\<close> relate the world before a step to the world after it: the
  step kept the fault table, the script and the recovery count; it kept files, processes
  and the fault table; it only extended the trace, by events in which every deletion is
  checked.  \<open>lsof_answer\<close> is what \<^verbatim>\<open>sudo lsof l\<close> answers in a world.
\<close>

definition same :: "world \<Rightarrow> world \<Rightarrow> bool" where
  "same w w' = (faults w' = faults w \<and> script w' = script w \<and> recoveries w' = recoveries w)"

definition ext :: "world \<Rightarrow> world \<Rightarrow> bool" where
  "ext w w' = (\<exists>seg. trace w' = trace w @ seg \<and> removals_checked None seg)"

definition lsof_answer :: "world \<Rightarrow> string \<Rightarrow> exn + completed" where
  "lsof_answer w l =
     (case faults w [''sudo'', ''lsof'', l] of
        Some b \<Rightarrow> deliver [''sudo'', ''lsof'', l] None b
      | None \<Rightarrow> Inr (fst (lsof l w)))"

definition says_held :: "world \<Rightarrow> string \<Rightarrow> bool" where
  "says_held w l = (\<exists>c. lsof_answer w l = Inr c \<and> returncode c = 0)"

definition still :: "world \<Rightarrow> world \<Rightarrow> bool" where
  "still w w' = (fs w' = fs w \<and> procs w' = procs w \<and> faults w' = faults w)"

definition nofault :: "world \<Rightarrow> bool" where
  "nofault w = (faults w = (\<lambda>argv. None))"

text \<open>
  The three edit procedures have one shape: an optional first command, the backup, the
  read, then either the write of the new content or the log line that nothing changed.
  \<open>proc_of\<close> builds a procedure from the parts that differ, and the procedures of the
  source are shown equal to their instances.  \<open>final\<close> is the world such a procedure leaves,
  but for the trace: \<open>backed\<close> after the copy, \<open>teed\<close> after the write; \<open>cat_text\<close> is the text
  the read returns; \<open>raises\<close> says that an injected behaviour makes \<^verbatim>\<open>run_command\<close> raise.
\<close>

definition raises :: "behaviour option \<Rightarrow> bool" where
  "raises fb = (case fb of Some (Overruns c) \<Rightarrow> True | Some (Unlaunchable m) \<Rightarrow> True | _ \<Rightarrow> False)"

definition finished :: "behaviour option \<Rightarrow> completed \<Rightarrow> completed" where
  "finished fb c = (case fb of Some (Finishes c') \<Rightarrow> c' | _ \<Rightarrow> c)"

definition as_meshtastic :: "string list \<Rightarrow> exn + completed \<Rightarrow> exn + completed" where
  "as_meshtastic cmd r =
     (case r of
        Inr c \<Rightarrow> Inr c
      | Inl e \<Rightarrow>
          if cls e = TimeoutExpired
          then Inl (Exn MeshtasticError (''Command timed out: '' @ join '' '' cmd))
          else Inl (Exn MeshtasticError (''Command failed: '' @ str e)))"

definition effective :: "nat option \<Rightarrow> nat" where
  "effective timeout = (case timeout of None \<Rightarrow> DEFAULT_TIMEOUT
                        | Some t \<Rightarrow> if t = 0 then DEFAULT_TIMEOUT else t)"

definition emits :: "event list \<Rightarrow> world \<Rightarrow> world" where
  "emits es w = w\<lparr>trace := trace w @ es\<rparr>"

record shape =
  pre_cmd :: "string list option"
  start :: string
  fail :: string
  changed :: "string \<Rightarrow> bool"
  new :: "string \<Rightarrow> string"
  pre :: "string \<Rightarrow> event list"
  post :: "event list"
  same_msg :: string
  same_rest :: "event list"
  res :: operation_result

definition edit_of :: "shape \<Rightarrow> string \<Rightarrow> world \<Rightarrow> (exn + operation_result) \<times> world" where
  "edit_of sh c w =
     (if changed sh c then
        (case run_sudo_command [''tee'', BOOT_CONFIG_FILE] None (Some (new sh c))
                (emits (pre sh c) w) of
           (Inl e, w3) \<Rightarrow> (Inl e, w3)
         | (Inr written, w3) \<Rightarrow> (Inr (res sh), emits (post sh) w3))
      else (Inr (res sh), emits (LogInfo (same_msg sh) # same_rest sh) w))"

definition read_of :: "shape \<Rightarrow> world \<Rightarrow> (exn + operation_result) \<times> world" where
  "read_of sh w =
     (case backup_file BOOT_CONFIG_FILE w of
        (Inl e, w2) \<Rightarrow> (Inl e, w2)
      | (Inr backup_path, w2) \<Rightarrow>
          (case run_sudo_command [''cat'', BOOT_CONFIG_FILE] None None
                  (emits [LogInfo (''Backed up config.txt to '' @ backup_path)] w2) of
             (Inl e, w3) \<Rightarrow> (Inl e, w3)
           | (Inr result, w3) \<Rightarrow> edit_of sh (stdout result) w3))"

definition try_of :: "shape \<Rightarrow> world \<Rightarrow> (exn + operation_result) \<times> world" where
  "try_of sh w =
     (case pre_cmd sh of
        None \<Rightarrow> read_of sh (emits [LogInfo (start sh)] w)
      | Some args \<Rightarrow>
          (case run_sudo_command args None None (emits [LogInfo (start sh)] w) of
             (Inl e, w1) \<Rightarrow> (Inl e, w1)
           | (Inr enabled, w1) \<Rightarrow> read_of sh w1))"

definition proc_of :: "shape \<Rightarrow> world \<Rightarrow> (exn + operation_result) \<times> world" where
  "proc_of sh w =
     (case try_of sh w of
        (Inr r, w1) \<Rightarrow> (Inr r, w1)
      | (Inl e, w1) \<Rightarrow> (Inl (Exn ConfigurationError (fail sh @ str e)), w1))"

definition spi_changed :: "string \<Rightarrow> bool" where
  "spi_changed c =
     (\<not> py_in ''dtparam=spi=on'' c \<or>
      \<not> py_in ''dtoverlay=spi0-0cs''
          (if \<not> py_in ''dtparam=spi=on'' c
           then c @ ''\<newline># SPI Configuration\<newline>dtparam=spi=on\<newline>'' else c))"

definition spi_new :: "string \<Rightarrow> string" where
  "spi_new c =
     (let c1 = (if \<not> py_in ''dtparam=spi=on'' c
                then c @ ''\<newline># SPI Configuration\<newline>dtparam=spi=on\<newline>'' else c)
      in if \<not> py_in ''dtoverlay=spi0-0cs'' c1
         then (if py_in ''dtparam=spi=on'' c then c1 @ ''\<newline># SPI Configuration\<newline>'' else c1)
                @ ''dtoverlay=spi0-0cs\<newline>''
         else c1)"

definition spi_pre :: "string \<Rightarrow> event list" where
  "spi_pre c =
     (if \<not> py_in ''dtparam=spi=on'' c then [LogInfo ''Added SPI parameter to config.txt''] else [])
     @ (if \<not> py_in ''dtoverlay=spi0-0cs''
            (if \<not> py_in ''dtparam=spi=on'' c
             then c @ ''\<newline># SPI Configuration\<newline>dtparam=spi=on\<newline>'' else c)
        then [LogInfo ''Added SPI overlay to config.txt''] else [])"

definition spi_shape :: shape where
  "spi_shape = \<lparr>pre_cmd = Some [''raspi-config'', ''nonint'', ''do_spi'', ''0''],
      start = ''Enabling SPI interface...'', fail = ''SPI configuration failed: '',
      changed = spi_changed, new = spi_new, pre = spi_pre,
      post = [LogInfo ''SPI configuration updated in config.txt'',
              LogInfo ''SPI configuration complete. Reboot may be required.''],
      same_msg = ''SPI configuration already present in config.txt'',
      same_rest = [LogInfo ''SPI configuration complete. Reboot may be required.''],
      res = OperationResult True ''SPI enabled successfully'' []\<rparr>"

definition i2c_shape :: shape where
  "i2c_shape = \<lparr>pre_cmd = Some [''raspi-config'', ''nonint'', ''do_i2c'', ''0''],
      start = ''Enabling I2C interface...'', fail = ''I2C configuration failed: '',
      changed = (\<lambda>c. \<not> py_in ''dtparam=i2c_arm=on'' c),
      new = (\<lambda>c. c @ ''\<newline># I2C Configuration\<newline>dtparam=i2c_arm=on\<newline>''),
      pre = (\<lambda>c. []),
      post = [LogInfo ''Added I2C ARM parameter to config.txt'',
              LogInfo ''I2C configuration complete. Reboot may be required.''],
      same_msg = ''I2C ARM parameter already present in config.txt'',
      same_rest = [LogInfo ''I2C configuration complete. Reboot may be required.''],
      res = OperationResult True ''I2C enabled successfully'' []\<rparr>"

definition meshadv_shape :: shape where
  "meshadv_shape = \<lparr>pre_cmd = None,
      start = ''Configuring MeshAdv Mini GPIO and PPS settings...'',
      fail = ''MeshAdv Mini configuration failed: '',
      changed = (\<lambda>c. \<not> py_in ''MeshAdv Mini Configuration'' c),
      new = (\<lambda>c. c @ meshadv_config),
      pre = (\<lambda>c. []),
      post = [LogInfo ''MeshAdv Mini configuration added to config.txt'',
              LogInfo ''Reboot required for changes to take effect'',
              IdleAdd ''Configuration Complete''
                ''MeshAdv Mini configuration added.\<newline>Reboot required for changes to take effect.''],
      same_msg = ''MeshAdv Mini configuration already present'',
      same_rest = [],
      res = OperationResult True ''MeshAdv Mini configured successfully'' []\<rparr>"

definition bp :: "world \<Rightarrow> string" where
  "bp w = BOOT_CONFIG_FILE @ ''.backup_'' @ now w"

definition cp_cmd :: "world \<Rightarrow> string list" where
  "cp_cmd w = [''sudo'', ''cp'', BOOT_CONFIG_FILE, bp w]"

definition cat_cmd :: "string list" where
  "cat_cmd = [''sudo'', ''cat'', BOOT_CONFIG_FILE]"

definition tee_cmd :: "string list" where
  "tee_cmd = [''sudo'', ''tee'', BOOT_CONFIG_FILE]"

definition backed :: "world \<Rightarrow> world" where
  "backed w = (if faults w (cp_cmd w) = None then snd (cp BOOT_CONFIG_FILE (bp w) w) else w)"

definition cat_text :: "world \<Rightarrow> string" where
  "cat_text w = stdout (finished (faults w cat_cmd) (fst (cat BOOT_CONFIG_FILE w)))"

definition teed :: "string \<Rightarrow> world \<Rightarrow> world" where
  "teed c w = (if faults w tee_cmd = None then w\<lparr>fs := (fs w)(BOOT_CONFIG_FILE \<mapsto> c)\<rparr> else w)"

definition pre_raises :: "shape \<Rightarrow> world \<Rightarrow> bool" where
  "pre_raises sh w =
     (case pre_cmd sh of None \<Rightarrow> False | Some args \<Rightarrow> raises (faults w (''sudo'' # args)))"

definition final :: "shape \<Rightarrow> world \<Rightarrow> world" where
  "final sh w =
     (if pre_raises sh w \<or> raises (faults w (cp_cmd w)) then w
      else if raises (faults w cat_cmd) then backed w
      else if changed sh (cat_text w) then teed (new sh (cat_text w)) (backed w)
      else backed w)"

definition wf_shape :: "shape \<Rightarrow> bool" where
  "wf_shape sh =
     ((case pre_cmd sh of None \<Rightarrow> True | Some args \<Rightarrow> args \<noteq> [] \<and> hd args = ''raspi-config'')
      \<and> \<not> writes_file BOOT_CONFIG_FILE (same_rest sh))"

section \<open>Worlds used as concrete inputs\<close>

definition quiet :: world where
  "quiet = \<lparr>fs = Map.empty, procs = [], interrupted = False, now = ''20240101_120000'',
            faults = (\<lambda>argv. None), script = [], trace = []\<rparr>"

definition spi_lines :: string where
  "spi_lines = ''dtparam=spi=on'' @ [CHR 0x0A] @ ''dtoverlay=spi0-0cs'' @ [CHR 0x0A]"

definition second_chip_select_only :: world where
  "second_chip_select_only =
     quiet\<lparr>fs := [''/dev/spidev0.1'' \<mapsto> [], BOOT_CONFIG_FILE \<mapsto> spi_lines]\<rparr>"

text \<open>A lock file left behind with no process holding it.\<close>

definition stale_lock :: world where
  "stale_lock = quiet\<lparr>fs := [''/var/lib/dpkg/lock'' \<mapsto> []]\<rparr>"

text \<open>A lock file held by a hanging \<^verbatim>\<open>apt-get\<close>, which \<^verbatim>\<open>killall\<close> removes.\<close>

definition held_by_apt :: world where
  "held_by_apt = quiet\<lparr>fs := [''/var/lib/dpkg/lock-frontend'' \<mapsto> []],
                        procs := [(''apt-get'', [''/var/lib/dpkg/lock-frontend''])]\<rparr>"

text \<open>An apt command that meets the lock twice and then succeeds.\<close>

definition busy_twice :: world where
  "busy_twice = quiet\<lparr>script :=
      [Finishes (Completed 100 [] ''E: Could not get lock /var/lib/dpkg/lock-frontend''),
       Finishes (Completed 100 [] ''E: Could not get lock /var/lib/dpkg/lock-frontend''),
       Finishes (Completed 0 ''Reading package lists... Done'' [])]\<rparr>"


text \<open>A command that never ends in time, and one that ends with a non-zero exit status.\<close>

definition hangs :: world where
  "hangs = quiet\<lparr>script := [Overruns (Completed 0 [] [])]\<rparr>"

definition exits_nonzero :: world where
  "exits_nonzero = quiet\<lparr>script := [Finishes (Completed 2 [] ''usage error'')]\<rparr>"

text \<open>
  The boot partition is full: the copy to the backup fails with exit status 1.  And a
  write through \<^verbatim>\<open>tee\<close> that fails with exit status 1.
\<close>

definition backup_disk_full :: world where
  "backup_disk_full =
     quiet\<lparr>fs := [BOOT_CONFIG_FILE \<mapsto> ''# boot configuration\<newline>''],
           faults := (\<lambda>argv. if take 2 argv = [''sudo'', ''cp'']
                               then Some (Finishes (Completed 1 []
                                      ''cp: error writing: No space left on device''))
                               else None)\<rparr>"

definition write_fails :: world where
  "write_fails =
     quiet\<lparr>fs := [BOOT_CONFIG_FILE \<mapsto> ''# boot configuration\<newline>''],
           faults := (\<lambda>argv. if take 2 argv = [''sudo'', ''tee'']
                               then Some (Finishes (Completed 1 []
                                      ''tee: /boot/firmware/config.txt: Input/output error''))
                               else None)\<rparr>"

text \<open>A thread manager as the application creates it.\<close>

definition fresh_manager :: thread_manager where
  "fresh_manager = \<lparr>max_workers = 4, shut = False, items = [], active_futures = []\<rparr>"

section \<open>Properties\<close>

subsection \<open>C1: three attempts, two recoveries\<close>

lemma emit_fields [simp]:
  "fs (emit e w) = fs w" "procs (emit e w) = procs w" "interrupted (emit e w) = interrupted w"
  "now (emit e w) = now w" "faults (emit e w) = faults w" "script (emit e w) = script w"
  "trace (emit e w) = trace w @ [e]"
  by (simp_all add: emit_def)

lemma tool_frame:
  assumes "tool argv inp w = Some (c, w')"
  shows "faults w' = faults w \<and> script w' = script w \<and> trace w' = trace w \<and> now w' = now w"
  using assms
  by (auto simp: tool_def dpkg_audit_def dpkg_configure_def killall_def raspi_config_def
      lsof_def cat_def tee_def rm_f_def cp_def
      split: if_splits list.splits option.splits)

lemma respond_frame:
  assumes "respond argv t inp w = (r, w')"
  shows "faults w' = faults w" "trace w' = trace w" "now w' = now w"
  using assms tool_frame
  by (auto simp: respond_def split: option.splits list.splits prod.splits)

lemma run_frame:
  assumes "subprocess_run argv t inp w = (r, w')"
  shows "faults w' = faults w" "trace w' = trace w @ [Exec argv r]" "now w' = now w"
  using assms respond_frame [of argv t inp w]
  by (auto simp: subprocess_run_def split: prod.splits)

lemma run_script:
  assumes "subprocess_run argv t inp w = (r, w')"
    and "tool argv (case inp of None \<Rightarrow> [] | Some s \<Rightarrow> s) w \<noteq> None"
  shows "script w' = script w"
  using assms tool_frame
  by (auto simp: subprocess_run_def respond_def split: prod.splits option.splits)

lemma tool_known [simp]:
  "tool [''sudo'', ''dpkg'', ''--audit''] i w = Some (dpkg_audit w)"
  "tool [''sudo'', ''dpkg'', ''--configure'', ''-a''] i w = Some (dpkg_configure w)"
  "tool killall_apt i w = Some (killall [''apt'', ''apt-get'', ''dpkg''] w)"
  "tool [''sudo'', ''lsof'', f] i w = Some (lsof f w)"
  "tool [''sudo'', ''rm'', ''-f'', f] i w = Some (rm_f f w)"
  by (simp_all add: tool_def killall_apt_def)

lemma recoveries_emit:
  "recoveries (emit e w) =
     recoveries w + (if e = LogInfo ''Checking for apt lock issues...'' then 1 else 0)"
  by (simp add: recoveries_def)

lemma same_refl [simp]: "same w w" by (simp add: same_def)

lemma same_run:
  assumes "subprocess_run argv t inp v = (r, w')"
    and "tool argv (case inp of None \<Rightarrow> [] | Some s \<Rightarrow> s) v \<noteq> None"
  shows "same w w' = same w v"
  using run_frame [OF assms(1)] run_script [OF assms]
  by (simp add: same_def recoveries_def)

lemma same_log [simp]:
  "same w (logging_warning m v) = same w v" "same w (logging_error m v) = same w v"
  "same w (time_sleep n v) = same w v"
  by (simp_all add: same_def logging_warning_def logging_error_def time_sleep_def recoveries_emit)

lemma same_info:
  "m \<noteq> ''Checking for apt lock issues...'' \<Longrightarrow> same w (logging_info m v) = same w v"
  by (simp add: same_def logging_info_def recoveries_emit)

lemma same_sys:
  "subprocess_run [''sudo'', ''dpkg'', ''--audit''] t i v = (r, w') \<Longrightarrow> same w w' = same w v"
  "subprocess_run [''sudo'', ''dpkg'', ''--configure'', ''-a''] t i v = (r, w') \<Longrightarrow> same w w' = same w v"
  "subprocess_run killall_apt t i v = (r, w') \<Longrightarrow> same w w' = same w v"
  "subprocess_run [''sudo'', ''lsof'', f] t i v = (r, w') \<Longrightarrow> same w w' = same w v"
  "subprocess_run [''sudo'', ''rm'', ''-f'', f] t i v = (r, w') \<Longrightarrow> same w w' = same w v"
  by (erule same_run, simp)+

lemma same_audit: "same w (snd (audit_and_configure v)) = same w v"
  unfolding audit_and_configure_def
  by (auto split: prod.splits sum.splits simp: same_sys same_info)

lemma same_scan: "same w (snd (scan_locks ls found v)) = same w v"
  by (induction ls arbitrary: found v) (auto split: prod.splits sum.splits simp: same_sys)

lemma same_clear: "same w (clear_locks ls v) = same w v"
  by (induction ls arbitrary: v)
    (auto split: prod.splits sum.splits simp: same_sys same_info check_true_def)

lemma same_try: "same w (snd (check_and_fix_apt_locks_try v)) = same w (logging_info ''Checking for apt lock issues...'' v)"
proof -
  let ?w0 = "logging_info ''Checking for apt lock issues...'' v"
  obtain r1 w1 where a: "audit_and_configure ?w0 = (r1, w1)" by (cases "audit_and_configure ?w0")
  have s1: "same w w1 = same w ?w0" using same_audit [of w ?w0] a by simp
  obtain found w2 where b: "scan_locks lock_files [] w1 = (found, w2)"
    by (cases "scan_locks lock_files [] w1")
  have s2: "same w w2 = same w ?w0" using same_scan [of w lock_files "[]" w1] b s1 by simp
  let ?w2 = "logging_info ''Attempting to kill apt-related processes...'' w2"
  obtain r3 w3 where c: "subprocess_run killall_apt None None ?w2 = (r3, w3)"
    by (cases "subprocess_run killall_apt None None ?w2")
  have s3: "same w w3 = same w ?w0" using same_sys(3) [OF c] s2 by (simp add: same_info)
  show ?thesis
    unfolding check_and_fix_apt_locks_try_def a
    by (cases r1; cases r3) (simp_all add: b c s1 s2 s3 same_clear)
qed

lemma recovery_counts:
  "faults (snd (check_and_fix_apt_locks w)) = faults w"
  "script (snd (check_and_fix_apt_locks w)) = script w"
  "recoveries (snd (check_and_fix_apt_locks w)) = recoveries w + 1"
proof -
  let ?w0 = "logging_info ''Checking for apt lock issues...'' w"
  obtain r1 w1 where a: "check_and_fix_apt_locks_try w = (r1, w1)"
    by (cases "check_and_fix_apt_locks_try w")
  have "same ?w0 w1" using same_try [of ?w0 w] a by simp
  then have "same ?w0 (snd (check_and_fix_apt_locks w))"
    unfolding check_and_fix_apt_locks_def a by (cases r1) simp_all
  then show "faults (snd (check_and_fix_apt_locks w)) = faults w"
    "script (snd (check_and_fix_apt_locks w)) = script w"
    "recoveries (snd (check_and_fix_apt_locks w)) = recoveries w + 1"
    by (simp_all add: same_def logging_info_def recoveries_emit)
qed

lemma recoveries_script: "recoveries (w\<lparr>script := s\<rparr>) = recoveries w"
  by (simp add: recoveries_def)

lemma tool_apt: "tool (''sudo'' # ''apt'' # args) i w = None"
  by (simp add: tool_def killall_apt_def split: list.splits)

lemma run_scripted:
  assumes "faults w cmd = None"
    and "tool cmd (case inp of None \<Rightarrow> [] | Some s \<Rightarrow> s) w = None"
    and "script w = b # bs"
  shows "subprocess_run cmd t inp w =
           (deliver cmd t b, emit (Exec cmd (deliver cmd t b)) (w\<lparr>script := bs\<rparr>))"
  using assms by (simp add: subprocess_run_def respond_def)

lemma attempt_step:
  assumes cmd: "cmd = ''sudo'' # ''apt'' # args"
    and nofault: "faults w cmd = None"
    and scr: "script w = Finishes r # rest"
  shows "\<exists>w1. safe_apt_attempt k cmd t inp w =
                 (if lock_error r \<and> k < 2 then None else Some (Inr (Some r)), w1)
              \<and> faults w1 = faults w \<and> script w1 = rest
              \<and> recoveries w1 = recoveries w + (if k > 0 then 1 else 0)"
proof -
  define m where "m = ''Retry attempt '' @ str_nat (k + 1) @ ''/'' @ str_nat max_retries
                        @ '' for apt command...''"
  define w0 where "w0 = (if k > 0 then time_sleep retry_delay
                            (snd (check_and_fix_apt_locks (logging_info m w))) else w)"
  define inp' where "inp' = (case inp of None \<Rightarrow> None | Some s \<Rightarrow> if s \<noteq> [] then Some s else None)"
  have w0: "faults w0 = faults w" "script w0 = script w"
    "recoveries w0 = recoveries w + (if k > 0 then 1 else 0)"
    by (simp_all add: w0_def time_sleep_def recovery_counts logging_info_def recoveries_emit m_def)
  have run: "subprocess_run cmd (Some t) inp' w0 =
               (Inr r, emit (Exec cmd (Inr r)) (w0\<lparr>script := rest\<rparr>))"
    using run_scripted [of w0 cmd inp' "Finishes r" rest "Some t"] w0 nofault scr
    by (simp add: cmd tool_apt deliver_def)
  have "safe_apt_attempt k cmd t inp w =
          (case subprocess_run cmd (Some t) inp' w0 of
             (Inr result, w1) \<Rightarrow>
               if lock_error result then
                 (if k < max_retries - 1 then
                    (None, logging_warning (''Lock detected on attempt '' @ str_nat (k + 1)
                                       @ '', will retry...'') w1)
                  else (Some (Inr (Some result)),
                        logging_error ''Failed to acquire apt lock after all retries'' w1))
               else (Some (Inr (Some result)), w1)
           | (Inl e, w1) \<Rightarrow> undefined e w1)"
    unfolding safe_apt_attempt_def w0_def m_def inp'_def Let_def run [unfolded w0_def m_def inp'_def]
    by simp
  then show ?thesis
    unfolding run
    by (auto simp: max_retries_def w0 logging_warning_def logging_error_def recoveries_emit
        recoveries_script)
qed

text \<open>
  C1: with the three attempts of \<^verbatim>\<open>safe_apt_command\<close>, if the apt command reports lock
  contention on attempts 1 and 2 (a lock signature in its stderr) and ends without one on
  attempt 3, the call returns the result of attempt 3, and \<^verbatim>\<open>check_and_fix_apt_locks\<close>
  was entered exactly twice during the call.  The recovery steps themselves may go any way
  (any files, processes and injected faults).
\<close>

theorem safe_apt_command_third_attempt:
  assumes cmd: "cmd_args = ''sudo'' # ''apt'' # args"
    and nofault: "faults w cmd_args = None"
    and scr: "script w = Finishes r1 # Finishes r2 # Finishes r3 # rest"
    and locks: "lock_error r1" "lock_error r2" "\<not> lock_error r3"
  shows "fst (safe_apt_command cmd_args timeout interactive_input w) = Inr (Some r3)
       \<and> recoveries (snd (safe_apt_command cmd_args timeout interactive_input w))
           = recoveries w + 2"
proof -
  obtain w1 where 1: "safe_apt_attempt 0 cmd_args timeout interactive_input w = (None, w1)"
    "faults w1 = faults w" "script w1 = Finishes r2 # Finishes r3 # rest"
    "recoveries w1 = recoveries w"
    using attempt_step [OF cmd nofault scr, of 0 timeout interactive_input] locks by auto
  obtain w2 where 2: "safe_apt_attempt (Suc 0) cmd_args timeout interactive_input w1 = (None, w2)"
    "faults w2 = faults w" "script w2 = Finishes r3 # rest"
    "recoveries w2 = recoveries w + 1"
    using attempt_step [OF cmd _ 1(3), of "Suc 0" timeout interactive_input] locks 1 nofault by auto
  obtain w3 where 3: "safe_apt_attempt 2 cmd_args timeout interactive_input w2
                        = (Some (Inr (Some r3)), w3)"
    "recoveries w3 = recoveries w + 2"
    using attempt_step [OF cmd _ 2(3), of 2 timeout interactive_input] locks 2 nofault by auto
  have "[0..<max_retries] = [0, 1, 2]"
    by (simp add: max_retries_def upt_rec)
  then show ?thesis
    by (simp add: safe_apt_command_def 1 2 3)
qed

theorem safe_apt_command_third_attempt_witness:
  "fst (safe_apt_command [''sudo'', ''apt'', ''update''] 120 None busy_twice)
     = Inr (Some (Completed 0 ''Reading package lists... Done'' []))
   \<and> recoveries (snd (safe_apt_command [''sudo'', ''apt'', ''update''] 120 None busy_twice)) = 2"
proof -
  have l: "lock_error (Completed 100 [] ''E: Could not get lock /var/lib/dpkg/lock-frontend'')"
    "\<not> lock_error (Completed 0 ''Reading package lists... Done'' [])"
    by code_simp+
  have z: "recoveries busy_twice = 0" "faults busy_twice [''sudo'', ''apt'', ''update''] = None"
    by (simp_all add: busy_twice_def quiet_def recoveries_def)
  show ?thesis
    using safe_apt_command_third_attempt
      [of "[''sudo'', ''apt'', ''update'']" "[''update'']" busy_twice _ _ _ "[]", OF _ z(2) _ l(1) l(1) l(2)]
    by (simp add: busy_twice_def z(1) [unfolded busy_twice_def])
qed

subsection \<open>C3: a held lock file is never deleted\<close>

lemma removals_checked_weaken: "removals_checked None es \<Longrightarrow> removals_checked p es"
  by (cases es) (auto split: event.splits option.splits)

lemma removals_checked_append:
  "removals_checked p xs \<Longrightarrow> removals_checked None ys \<Longrightarrow> removals_checked p (xs @ ys)"
  by (induction xs arbitrary: p) (auto intro: removals_checked_weaken)

lemma ext_refl [simp]: "ext w w"
  by (simp add: ext_def)

lemma ext_trans: "ext w v \<Longrightarrow> ext v w' \<Longrightarrow> ext w w'"
  by (auto simp: ext_def intro: removals_checked_append)

lemma ext_emit: "(case e of Exec argv r \<Rightarrow> rm_target argv = None | _ \<Rightarrow> True) \<Longrightarrow> ext w (emit e w)"
  by (auto simp: ext_def split: event.splits)

lemma ext_log [simp]:
  "ext w (logging_info m w)" "ext w (logging_warning m w)" "ext w (logging_error m w)"
  "ext w (time_sleep n w)"
  by (simp_all add: logging_info_def logging_warning_def logging_error_def time_sleep_def ext_emit)

lemma ext_run:
  assumes "subprocess_run argv t i w = (r, w')" "rm_target argv = None"
  shows "ext w w'"
  using run_frame(2) [OF assms(1)] assms(2) by (simp add: ext_def)

lemma ext_rm:
  assumes "subprocess_run [''sudo'', ''lsof'', f] t i w = (Inr c, w1)" "returncode c \<noteq> 0"
    and "subprocess_run [''sudo'', ''rm'', ''-f'', f] t' i' w1 = (r, w2)"
  shows "ext w w2"
  using run_frame(2) [OF assms(1)] run_frame(2) [OF assms(3)] assms(2)
  by (simp add: ext_def rm_target_def reports_free_def)

lemma rm_target_sys [simp]:
  "rm_target [''sudo'', ''dpkg'', ''--audit''] = None"
  "rm_target [''sudo'', ''dpkg'', ''--configure'', ''-a''] = None"
  "rm_target killall_apt = None"
  "rm_target [''sudo'', ''lsof'', f] = None"
  by (simp_all add: rm_target_def killall_apt_def)

lemma ext_audit: "ext w (snd (audit_and_configure w))"
proof -
  obtain r1 w1 where a: "subprocess_run [''sudo'', ''dpkg'', ''--audit''] None None w = (r1, w1)"
    by (cases "subprocess_run [''sudo'', ''dpkg'', ''--audit''] None None w")
  let ?v = "logging_warning ''dpkg appears to be interrupted, attempting to fix...'' w1"
  obtain r2 w2 where b: "subprocess_run [''sudo'', ''dpkg'', ''--configure'', ''-a''] (Some 60)
                    (Some (''n'' @ [CHR 0x0A])) ?v = (r2, w2)"
    by (cases "subprocess_run [''sudo'', ''dpkg'', ''--configure'', ''-a''] (Some 60)
                    (Some (''n'' @ [CHR 0x0A])) ?v")
  have 1: "ext w w1" using ext_run [OF a] by simp
  have "ext w1 ?v" by simp
  moreover have "ext ?v w2" using ext_run [OF b] by simp
  ultimately have 2: "ext w w2" using 1 by (blast intro: ext_trans)
  have 3: "ext w (logging_info m w2)" "ext w (logging_warning m w2)" for m
    using 2 ext_log by (blast intro: ext_trans)+
  show ?thesis
    unfolding audit_and_configure_def a
    by (cases r1; cases r2) (simp_all add: b [simplified] 1 2 3)
qed

lemma ext_scan: "ext w (snd (scan_locks ls found w))"
proof (induction ls arbitrary: found w)
  case Nil
  show ?case by simp
next
  case (Cons l ls)
  obtain r1 w1 where a: "subprocess_run [''sudo'', ''lsof'', l] None None w = (r1, w1)"
    by (cases "subprocess_run [''sudo'', ''lsof'', l] None None w")
  have 1: "ext w w1" using ext_run [OF a] by simp
  have 2: "ext w (snd (scan_locks ls fnd w1))" for fnd
    using 1 Cons.IH [where found = fnd and w = w1] by (blast intro: ext_trans)
  have 3: "ext w (snd (scan_locks ls fnd (logging_warning m w1)))" for fnd m
    using 1 ext_log(2) [of w1 m] Cons.IH [where found = fnd and w = "logging_warning m w1"]
    by (blast intro: ext_trans)
  show ?case
    by (cases r1) (simp_all add: a 2 3 Cons.IH)
qed

lemma ext_clear: "ext w (clear_locks ls w)"
proof (induction ls arbitrary: w)
  case Nil
  show ?case by simp
next
  case (Cons l ls)
  obtain r1 w1 where a: "subprocess_run [''sudo'', ''lsof'', l] None None w = (r1, w1)"
    by (cases "subprocess_run [''sudo'', ''lsof'', l] None None w")
  obtain r2 w2 where b: "subprocess_run [''sudo'', ''rm'', ''-f'', l] None None w1 = (r2, w2)"
    by (cases "subprocess_run [''sudo'', ''rm'', ''-f'', l] None None w1")
  have 1: "ext w w1" using ext_run [OF a] by simp
  have 2: "ext w (clear_locks ls w1)"
    using 1 Cons.IH [of w1] by (blast intro: ext_trans)
  show ?case
  proof (cases r1)
    case (Inl e)
    then show ?thesis by (simp add: a 2)
  next
    case (Inr c)
    show ?thesis
    proof (cases "returncode c \<noteq> 0")
      case False
      then show ?thesis using Inr by (simp add: a 2)
    next
      case True
      have 3: "ext w w2" using ext_rm [OF a [unfolded Inr] True b] .
      have 4: "ext w (clear_locks ls w2)"
        using 3 Cons.IH [of w2] by (blast intro: ext_trans)
      have 5: "ext w (clear_locks ls (logging_info m w2))" for m
        using 3 ext_log(1) [of w2 m] Cons.IH [of "logging_info m w2"]
        by (blast intro: ext_trans)
      show ?thesis using Inr True
        by (cases "check_true [''sudo'', ''rm'', ''-f'', l] r2") (simp_all add: a b 4 5)
    qed
  qed
qed

lemma ext_try: "ext w (snd (check_and_fix_apt_locks_try w))"
proof -
  let ?w0 = "logging_info ''Checking for apt lock issues...'' w"
  obtain r1 w1 where a: "audit_and_configure ?w0 = (r1, w1)" by (cases "audit_and_configure ?w0")
  have "ext ?w0 w1" using ext_audit [of ?w0] a by simp
  then have s1: "ext w w1" using ext_log(1) [of w] by (blast intro: ext_trans)
  obtain found w2 where b: "scan_locks lock_files [] w1 = (found, w2)"
    by (cases "scan_locks lock_files [] w1")
  have "ext w1 w2" using ext_scan [of w1 lock_files "[]"] b by simp
  then have s2: "ext w w2" using s1 by (blast intro: ext_trans)
  let ?w2 = "logging_info ''Attempting to kill apt-related processes...'' w2"
  obtain r3 w3 where c: "subprocess_run killall_apt None None ?w2 = (r3, w3)"
    by (cases "subprocess_run killall_apt None None ?w2")
  have "ext ?w2 w3" using ext_run [OF c] by simp
  then have s3: "ext w w3" using s2 ext_log(1) [of w2] by (blast intro: ext_trans)
  have s4: "ext w (clear_locks found (time_sleep 2 w3))"
    using s3 ext_log(4) [of w3 2] ext_clear [of "time_sleep 2 w3" found]
    by (blast intro: ext_trans)
  show ?thesis
    unfolding check_and_fix_apt_locks_try_def a
    by (cases r1; cases r3) (simp_all add: b c s1 s2 s3 s4)
qed

lemma ext_check_and_fix: "ext w (snd (check_and_fix_apt_locks w))"
proof -
  obtain r1 w1 where a: "check_and_fix_apt_locks_try w = (r1, w1)"
    by (cases "check_and_fix_apt_locks_try w")
  have 1: "ext w w1" using ext_try [of w] a by simp
  have 2: "ext w (logging_error m w1)" for m
    using 1 ext_log(3) [of w1 m] by (blast intro: ext_trans)
  show ?thesis
    unfolding check_and_fix_apt_locks_def a by (cases r1) (simp_all add: 1 2)
qed

lemma ext_added: "ext w w' \<Longrightarrow> removals_checked None (added w w')"
  by (auto simp: ext_def added_def)

lemma run_lsof:
  "subprocess_run [''sudo'', ''lsof'', l] None None w =
     (lsof_answer w l, emit (Exec [''sudo'', ''lsof'', l] (lsof_answer w l)) w)"
  by (simp add: subprocess_run_def respond_def lsof_answer_def lsof_def split: option.splits)

lemma run_rm:
  assumes "subprocess_run [''sudo'', ''rm'', ''-f'', l] None None w = (r, w')"
  shows "procs w' = procs w" "faults w' = faults w" "fs w' = fs w \<or> fs w' = (fs w)(l := None)"
  using assms
  by (auto simp: subprocess_run_def respond_def rm_f_def split: option.splits)

lemma run_killall:
  assumes "subprocess_run killall_apt None None w = (r, w')"
  shows "fs w' = fs w" "faults w' = faults w"
  using assms
  by (auto simp: subprocess_run_def respond_def killall_def split: option.splits if_splits)

lemma run_dpkg:
  assumes "subprocess_run [''sudo'', ''dpkg'', ''--audit''] t i w = (r, w')
         \<or> subprocess_run [''sudo'', ''dpkg'', ''--configure'', ''-a''] t i w = (r, w')"
  shows "fs w' = fs w" "procs w' = procs w" "faults w' = faults w"
  using assms
  by (auto simp: subprocess_run_def respond_def dpkg_audit_def dpkg_configure_def
      split: option.splits if_splits)

lemma still_refl [simp]: "still w w" by (simp add: still_def)

lemma still_log [simp]:
  "still w (logging_info m v) = still w v" "still w (logging_warning m v) = still w v"
  "still w (logging_error m v) = still w v" "still w (time_sleep n v) = still w v"
  "still w (emit e v) = still w v"
  by (simp_all add: still_def logging_info_def logging_warning_def logging_error_def time_sleep_def)

lemma still_dpkg:
  "subprocess_run [''sudo'', ''dpkg'', ''--audit''] t i v = (r, w') \<Longrightarrow> still w w' = still w v"
  "subprocess_run [''sudo'', ''dpkg'', ''--configure'', ''-a''] t i v = (r, w') \<Longrightarrow> still w w' = still w v"
  using run_dpkg [of t i v r w'] by (simp_all add: still_def)

lemma still_audit: "still w (snd (audit_and_configure v)) = still w v"
  unfolding audit_and_configure_def
  by (auto split: prod.splits sum.splits simp: still_dpkg)

lemma lsof_answer_cong:
  "faults w' = faults w \<Longrightarrow> procs w' = procs w \<Longrightarrow> lsof_answer w' l = lsof_answer w l"
  by (simp add: lsof_answer_def lsof_def holders_def split: option.splits)

lemma lsof_answer_faulted:
  "faults w' = faults w \<Longrightarrow> faults w [''sudo'', ''lsof'', l] \<noteq> None
     \<Longrightarrow> lsof_answer w' l = lsof_answer w l"
  by (auto simp: lsof_answer_def)

lemma scan_post:
  assumes "scan_locks ls found w = (found', w')"
  shows "still w w' \<and> (\<forall>l\<in>set found'. l \<in> set found \<or> says_held w l)"
  using assms
proof (induction ls arbitrary: found w)
  case Nil
  then show ?case by auto
next
  case (Cons l ls)
  let ?v = "emit (Exec [''sudo'', ''lsof'', l] (lsof_answer w l)) w"
  have sv: "still w ?v" by simp
  have ans: "says_held u k = says_held w k" if "still w u" for u k
    using that lsof_answer_cong [of u w k] by (simp add: says_held_def still_def)
  have tr: "still w u \<Longrightarrow> still u x \<Longrightarrow> still w x" for u x
    by (simp add: still_def)
  show ?case
  proof (cases "os_path_exists l w")
    case False
    then show ?thesis using Cons.IH [of found w] Cons.prems by simp
  next
    case True
    show ?thesis
    proof (cases "lsof_answer w l")
      case (Inl e)
      then have "scan_locks ls found ?v = (found', w')"
        using Cons.prems True by (simp add: run_lsof)
      from Cons.IH [OF this] show ?thesis using ans [OF sv] tr [OF sv] by auto
    next
      case (Inr c)
      show ?thesis
      proof (cases "returncode c = 0 \<and> strip (stdout c) \<noteq> []")
        case False
        then have "scan_locks ls found ?v = (found', w')"
          using Cons.prems True Inr by (auto simp add: run_lsof)
        from Cons.IH [OF this] show ?thesis using ans [OF sv] tr [OF sv] by auto
      next
        case yes: True
        let ?u = "logging_warning (''Lock file '' @ l @ '' is held by process'') ?v"
        have su: "still w ?u" by simp
        have h: "says_held w l" using Inr yes by (simp add: says_held_def)
        have "scan_locks ls (found @ [l]) ?u = (found', w')"
          using Cons.prems True Inr yes by (simp add: run_lsof)
        from Cons.IH [OF this] show ?thesis using ans [OF su] tr [OF su] h by auto
      qed
    qed
  qed
qed

lemma holders_cong: "procs w' = procs w \<Longrightarrow> holders f w' = holders f w"
  by (simp add: holders_def)

lemma lsof_free:
  assumes "faults w [''sudo'', ''lsof'', l] = None" "lsof_answer w l = Inr c" "returncode c \<noteq> 0"
  shows "holders l w = []"
  using assms by (auto simp: lsof_answer_def lsof_def split: if_splits)

lemma clear_post:
  assumes "\<forall>l\<in>set ls. faults w [''sudo'', ''lsof'', l] \<noteq> None \<longrightarrow> says_held w l"
  shows "procs (clear_locks ls w) = procs w \<and> faults (clear_locks ls w) = faults w
       \<and> (\<forall>f. fs w f \<noteq> None \<longrightarrow> fs (clear_locks ls w) f = None \<longrightarrow> holders f w = [])"
  using assms
proof (induction ls arbitrary: w)
  case Nil
  show ?case by auto
next
  case (Cons l ls)
  let ?goal = "\<lambda>y. procs y = procs w \<and> faults y = faults w
       \<and> (\<forall>f. fs w f \<noteq> None \<longrightarrow> fs y f = None \<longrightarrow> holders f w = [])"
  have step: "?goal (clear_locks ls x)"
    if x: "procs x = procs w" "faults x = faults w"
      "\<forall>f. fs w f \<noteq> None \<longrightarrow> fs x f = None \<longrightarrow> holders f w = []" for x
  proof -
    have eq: "says_held x k = says_held w k" for k
      using lsof_answer_cong [OF x(2) x(1)] by (simp add: says_held_def)
    have "\<forall>k\<in>set ls. faults x [''sudo'', ''lsof'', k] \<noteq> None \<longrightarrow> says_held x k"
      using Cons.prems x(2) eq by simp
    from Cons.IH [OF this] show ?thesis
      using x holders_cong [OF x(1)] by metis
  qed
  let ?v = "emit (Exec [''sudo'', ''lsof'', l] (lsof_answer w l)) w"
  have keep: "?goal (clear_locks ls ?v)" by (rule step) auto
  show ?case
  proof (cases "lsof_answer w l")
    case (Inl e)
    then show ?thesis using keep by (simp add: run_lsof)
  next
    case (Inr c)
    show ?thesis
    proof (cases "returncode c \<noteq> 0")
      case False
      then show ?thesis using keep Inr by (simp add: run_lsof)
    next
      case True
      then have "\<not> says_held w l" using Inr by (simp add: says_held_def)
      then have nf: "faults w [''sudo'', ''lsof'', l] = None" using Cons.prems by auto
      have free: "holders l w = []" using lsof_free [OF nf Inr True] .
      obtain r2 w2 where b: "subprocess_run [''sudo'', ''rm'', ''-f'', l] None None ?v = (r2, w2)"
        by (cases "subprocess_run [''sudo'', ''rm'', ''-f'', l] None None ?v")
      have w2: "procs w2 = procs w" "faults w2 = faults w"
        "fs w2 = fs w \<or> fs w2 = (fs w)(l := None)"
        using run_rm [OF b] by simp_all
      have fsw2: "\<forall>f. fs w f \<noteq> None \<longrightarrow> fs w2 f = None \<longrightarrow> holders f w = []"
        using w2(3) free by (auto split: if_splits)
      have a: "?goal (clear_locks ls w2)" by (rule step) (use w2 fsw2 in simp_all)
      have b': "?goal (clear_locks ls (logging_info m w2))" for m
        by (rule step) (use w2 fsw2 in \<open>simp_all add: logging_info_def\<close>)
      show ?thesis using Inr True a b'
        by (cases "check_true [''sudo'', ''rm'', ''-f'', l] r2") (simp_all add: run_lsof b [unfolded Inr])
    qed
  qed
qed

lemma check_and_fix_state:
  assumes "fs w f \<noteq> None" "fs (snd (check_and_fix_apt_locks w)) f = None"
  shows "holders f (snd (check_and_fix_apt_locks w)) = []"
proof -
  let ?w0 = "logging_info ''Checking for apt lock issues...'' w"
  obtain r1 w1 where a: "audit_and_configure ?w0 = (r1, w1)" by (cases "audit_and_configure ?w0")
  have s1: "still w w1" using still_audit [of w ?w0] a by simp
  obtain found w2 where b: "scan_locks lock_files [] w1 = (found, w2)"
    by (cases "scan_locks lock_files [] w1")
  have s2: "still w1 w2" and held: "\<forall>l\<in>set found. says_held w1 l"
    using scan_post [OF b] by auto
  let ?w2 = "logging_info ''Attempting to kill apt-related processes...'' w2"
  obtain r3 w3 where c: "subprocess_run killall_apt None None ?w2 = (r3, w3)"
    by (cases "subprocess_run killall_apt None None ?w2")
  have s3: "fs w3 = fs w" "faults w3 = faults w1"
    using run_killall [OF c] s1 s2 by (simp_all add: still_def logging_info_def)
  let ?w3 = "time_sleep 2 w3"
  have pre: "\<forall>l\<in>set found. faults ?w3 [''sudo'', ''lsof'', l] \<noteq> None \<longrightarrow> says_held ?w3 l"
  proof (intro ballI impI)
    fix l assume l: "l \<in> set found" and f: "faults ?w3 [''sudo'', ''lsof'', l] \<noteq> None"
    have "lsof_answer ?w3 l = lsof_answer w1 l"
      by (rule lsof_answer_faulted) (use f s3 in \<open>simp_all add: time_sleep_def\<close>)
    then show "says_held ?w3 l" using held l by (simp add: says_held_def)
  qed
  have post: "procs (clear_locks found ?w3) = procs ?w3"
    "\<forall>f. fs ?w3 f \<noteq> None \<longrightarrow> fs (clear_locks found ?w3) f = None \<longrightarrow> holders f ?w3 = []"
    using clear_post [OF pre] by auto
  have fin: "fs w f \<noteq> None \<longrightarrow> fs x f = None \<longrightarrow> holders f x = []"
    if "snd (check_and_fix_apt_locks_try w) = x" for x
    using that post s1 s2 s3 holders_cong [OF post(1), of f]
    unfolding check_and_fix_apt_locks_try_def a
    by (cases r1; cases r3) (auto simp: b c still_def time_sleep_def)
  obtain r w' where t: "check_and_fix_apt_locks_try w = (r, w')"
    by (cases "check_and_fix_apt_locks_try w")
  show ?thesis
    using assms fin [of w'] t
    unfolding check_and_fix_apt_locks_def
    by (cases r) (auto simp: logging_error_def holders_def)
qed

text \<open>
  C3: \<^verbatim>\<open>check_and_fix_apt_locks\<close> never deletes a lock file that a live process holds.
  The call only extends the trace, and in what it adds every \<^verbatim>\<open>sudo rm -f f\<close> comes directly
  after a \<^verbatim>\<open>sudo lsof f\<close> that exited non-zero (no holding process); and a file that
  existed before the call and is gone after it has no holder in the process table the call
  leaves (the table changes only by the \<^verbatim>\<open>killall\<close>, which comes before every deletion).
\<close>

theorem check_and_fix_never_deletes_held:
  "trace (snd (check_and_fix_apt_locks w))
     = trace w @ added w (snd (check_and_fix_apt_locks w))
   \<and> removals_checked None (added w (snd (check_and_fix_apt_locks w)))
   \<and> (fs w f \<noteq> None \<longrightarrow> fs (snd (check_and_fix_apt_locks w)) f = None
        \<longrightarrow> holders f (snd (check_and_fix_apt_locks w)) = [])"
  using ext_check_and_fix [of w] ext_added [of w "snd (check_and_fix_apt_locks w)"]
    check_and_fix_state [of w f]
  by (auto simp: ext_def added_def)

theorem check_and_fix_never_deletes_held_witness:
  "fs held_by_apt ''/var/lib/dpkg/lock-frontend'' \<noteq> None
   \<and> fs (snd (check_and_fix_apt_locks held_by_apt)) ''/var/lib/dpkg/lock-frontend'' = None
   \<and> holders ''/var/lib/dpkg/lock-frontend'' (snd (check_and_fix_apt_locks held_by_apt)) = []
   \<and> removals_checked None (added held_by_apt (snd (check_and_fix_apt_locks held_by_apt)))"
proof -
  have h: "fs held_by_apt ''/var/lib/dpkg/lock-frontend'' \<noteq> None"
    "fs (snd (check_and_fix_apt_locks held_by_apt)) ''/var/lib/dpkg/lock-frontend'' = None"
    by code_simp+
  show ?thesis
    using check_and_fix_never_deletes_held [of held_by_apt "''/var/lib/dpkg/lock-frontend''"] h
    by simp
qed

subsection \<open>C2: which lock files are deleted\<close>

lemma strip_nonempty: "\<not> is_space c \<Longrightarrow> strip (c # s) \<noteq> []"
  by (auto simp: strip_def dropWhile_eq_Nil_conv)

lemma lsof_answer_nofault:
  "faults w = (\<lambda>argv. None) \<Longrightarrow> lsof_answer w l = Inr (fst (lsof l w))"
  by (simp add: lsof_answer_def)

lemma lsof_held:
  "returncode (fst (lsof l w)) = 0 \<and> strip (stdout (fst (lsof l w))) \<noteq> [] \<longleftrightarrow> holders l w \<noteq> []"
  "returncode (fst (lsof l w)) \<noteq> 0 \<longleftrightarrow> holders l w = []"
  by (auto simp: lsof_def strip_nonempty is_space_def)

lemma scan_exact:
  assumes "nofault w"
  shows "fst (scan_locks ls found w)
          = found @ filter (\<lambda>l. fs w l \<noteq> None \<and> holders l w \<noteq> []) ls"
  using assms
proof (induction ls arbitrary: found w)
  case Nil
  show ?case by simp
next
  case (Cons l ls)
  let ?v = "emit (Exec [''sudo'', ''lsof'', l] (lsof_answer w l)) w"
  have ih: "fst (scan_locks ls fnd x)
          = fnd @ filter (\<lambda>l. fs w l \<noteq> None \<and> holders l w \<noteq> []) ls"
    if "still w x" for x fnd
    using Cons.IH [of x fnd] that Cons.prems by (simp add: still_def nofault_def holders_def)
  have ans: "lsof_answer w l = Inr (fst (lsof l w))"
    using Cons.prems by (simp add: nofault_def lsof_answer_nofault)
  show ?case
  proof (cases "holders l w = []")
    case True
    then show ?thesis using lsof_held(1) [of l w]
      by (auto simp add: run_lsof ans ih os_path_exists_def)
  next
    case False
    then show ?thesis using lsof_held(1) [of l w]
      by (auto simp add: run_lsof ans ih os_path_exists_def)
  qed
qed

lemma clear_exact:
  assumes "nofault w"
  shows "fs (clear_locks ls w) f = (if f \<in> set ls \<and> holders f w = [] then None else fs w f)"
  using assms
proof (induction ls arbitrary: w)
  case Nil
  show ?case by simp
next
  case (Cons l ls)
  let ?v = "emit (Exec [''sudo'', ''lsof'', l] (lsof_answer w l)) w"
  have ans: "lsof_answer w l = Inr (fst (lsof l w))"
    using Cons.prems by (simp add: nofault_def lsof_answer_nofault)
  have ih: "fs (clear_locks ls x) f = (if f \<in> set ls \<and> holders f w = [] then None else fs x f)"
    if "procs x = procs w" "faults x = faults w" for x
    using Cons.IH [of x] that Cons.prems by (simp add: nofault_def holders_def)
  have rm: "subprocess_run [''sudo'', ''rm'', ''-f'', l] None None x =
               (Inr (Completed 0 [] []),
                emit (Exec [''sudo'', ''rm'', ''-f'', l] (Inr (Completed 0 [] [])))
                  (x\<lparr>fs := (fs x)(l := None)\<rparr>))"
    if "faults x = faults w" for x
    using that Cons.prems by (simp add: subprocess_run_def respond_def nofault_def rm_f_def)
  show ?case
  proof (cases "holders l w = []")
    case False
    then show ?thesis using lsof_held(2) [of l w]
      by (auto simp add: run_lsof ans ih)
  next
    case True
    then show ?thesis using lsof_held(2) [of l w]
      by (simp add: run_lsof ans rm check_true_def ih logging_info_def)
  qed
qed

lemma audit_ok: "nofault v \<Longrightarrow> fst (audit_and_configure v) = Inr ()"
  by (simp add: audit_and_configure_def subprocess_run_def respond_def nofault_def
      dpkg_audit_def dpkg_configure_def logging_warning_def)

lemma killall_ok:
  assumes "nofault v"
  shows "\<exists>c w3. subprocess_run killall_apt None None v = (Inr c, w3)
           \<and> fs w3 = fs v \<and> faults w3 = faults v
           \<and> procs w3 = filter (\<lambda>p. fst p \<notin> set [''apt'', ''apt-get'', ''dpkg'']) (procs v)"
proof -
  have "filter (\<lambda>p. fst p \<in> set [''apt'', ''apt-get'', ''dpkg'']) (procs v) = []
        \<Longrightarrow> filter (\<lambda>p. fst p \<notin> set [''apt'', ''apt-get'', ''dpkg'']) (procs v) = procs v"
    by (simp add: filter_empty_conv filter_id_conv)
  then show ?thesis
    using assms
    by (auto simp: subprocess_run_def respond_def nofault_def killall_def simp del: set_simps)
qed

lemma holders_filter:
  "procs x = filter P (procs w) \<Longrightarrow> holders f x = filter P (holders f w)"
  by (auto simp: holders_def intro: filter_cong)

text \<open>
  C2 (as stated): every known lock file that exists and that no process holds when the
  routine runs is deleted.  The code puts a lock file on its deletion list only when
  \<^verbatim>\<open>lsof\<close> found a holder; a stale lock file with no holder is left in place.
\<close>

theorem stale_lock_counterexample:
  "''/var/lib/dpkg/lock'' \<in> set lock_files
   \<and> os_path_exists ''/var/lib/dpkg/lock'' stale_lock
   \<and> holders ''/var/lib/dpkg/lock'' stale_lock = []
   \<and> fs (snd (check_and_fix_apt_locks stale_lock)) ''/var/lib/dpkg/lock'' = Some []"
  by code_simp

text \<open>
  C2 (amended): when every command behaves normally, a known lock file that exists is
  deleted by the routine exactly when some process held it at the first check and every
  holder was one of the processes \<^verbatim>\<open>killall -9 apt apt-get dpkg\<close> kills (so that the second
  check finds no holder); a lock file that exists with no holder is left in place.
\<close>

theorem check_and_fix_deletes_iff:
  assumes nf: "faults w = (\<lambda>argv. None)"
    and lf: "f \<in> set lock_files"
    and ex: "fs w f \<noteq> None"
  shows "fs (snd (check_and_fix_apt_locks w)) f = None \<longleftrightarrow>
           holders f w \<noteq> []
           \<and> (\<forall>p\<in>set (holders f w). fst p \<in> set [''apt'', ''apt-get'', ''dpkg''])"
proof -
  let ?w0 = "logging_info ''Checking for apt lock issues...'' w"
  obtain r1 w1 where a: "audit_and_configure ?w0 = (r1, w1)" by (cases "audit_and_configure ?w0")
  have s1: "still w w1" using still_audit [of w ?w0] a by simp
  have r1: "r1 = Inr ()" using audit_ok [of ?w0] a nf by (simp add: nofault_def logging_info_def)
  obtain found w2 where b: "scan_locks lock_files [] w1 = (found, w2)"
    by (cases "scan_locks lock_files [] w1")
  have s2: "still w w2" using scan_post [OF b] s1 by (simp add: still_def)
  have nf1: "nofault w1" using s1 nf by (simp add: still_def nofault_def)
  have found: "found = filter (\<lambda>l. fs w l \<noteq> None \<and> holders l w \<noteq> []) lock_files"
    using scan_exact [OF nf1, of lock_files "[]"] b s1 by (simp add: still_def holders_def)
  let ?w2 = "logging_info ''Attempting to kill apt-related processes...'' w2"
  have nf2: "nofault ?w2" using s2 nf by (simp add: still_def nofault_def logging_info_def)
  obtain c w3 where k: "subprocess_run killall_apt None None ?w2 = (Inr c, w3)"
    "fs w3 = fs w" "faults w3 = faults w"
    "procs w3 = filter (\<lambda>p. fst p \<notin> set [''apt'', ''apt-get'', ''dpkg'']) (procs w)"
    using killall_ok [OF nf2] s2 by (auto simp: still_def logging_info_def)
  let ?w3 = "time_sleep 2 w3"
  have nf3: "nofault ?w3" using k nf by (simp add: nofault_def time_sleep_def)
  have h3: "holders f ?w3 = filter (\<lambda>p. fst p \<notin> set [''apt'', ''apt-get'', ''dpkg'']) (holders f w)"
    by (rule holders_filter) (simp add: time_sleep_def k)
  have fin: "fs (clear_locks found ?w3) f =
               (if f \<in> set found \<and> holders f ?w3 = [] then None else fs w f)"
    using clear_exact [OF nf3, of found f] k by (simp add: time_sleep_def)
  have body: "check_and_fix_apt_locks_try w =
               (Inr (), if found \<noteq> [] then clear_locks found ?w3 else w2)"
    unfolding check_and_fix_apt_locks_try_def a r1 by (simp add: b k)
  have fsw2: "fs w2 = fs w" using s2 by (simp add: still_def)
  show ?thesis
  proof (cases "found = []")
    case True
    then have "holders f w = []" using found lf ex by (auto simp: filter_empty_conv)
    then show ?thesis using True ex by (simp add: check_and_fix_apt_locks_def body fsw2)
  next
    case False
    have mem: "f \<in> set found \<longleftrightarrow> holders f w \<noteq> []"
      using found lf ex by simp
    have "fs (snd (check_and_fix_apt_locks w)) f =
            (if f \<in> set found \<and> holders f ?w3 = [] then None else fs w f)"
      using False by (simp add: check_and_fix_apt_locks_def body fin)
    then show ?thesis
      using ex by (auto simp add: mem h3 filter_empty_conv simp del: set_simps)
  qed
qed

theorem check_and_fix_deletes_iff_witness:
  "faults held_by_apt = (\<lambda>argv. None)
   \<and> ''/var/lib/dpkg/lock-frontend'' \<in> set lock_files
   \<and> fs held_by_apt ''/var/lib/dpkg/lock-frontend'' \<noteq> None
   \<and> holders ''/var/lib/dpkg/lock-frontend'' held_by_apt \<noteq> []
   \<and> fs (snd (check_and_fix_apt_locks held_by_apt)) ''/var/lib/dpkg/lock-frontend'' = None"
proof -
  have h: "faults held_by_apt = (\<lambda>argv. None)"
    "''/var/lib/dpkg/lock-frontend'' \<in> set lock_files"
    "fs held_by_apt ''/var/lib/dpkg/lock-frontend'' \<noteq> None"
    by (simp_all add: held_by_apt_def quiet_def lock_files_def)
  have k: "holders ''/var/lib/dpkg/lock-frontend'' held_by_apt
             = [(''apt-get'', [''/var/lib/dpkg/lock-frontend''])]"
    by (simp add: held_by_apt_def quiet_def holders_def)
  show ?thesis
    using check_and_fix_deletes_iff [OF h] h by (simp add: k)
qed

subsection \<open>C8: the composite SPI status\<close>

lemma spi_lines_have_both:
  "py_in ''dtparam=spi=on'' spi_lines \<and> py_in ''dtoverlay=spi0-0cs'' spi_lines"
  unfolding spi_lines_def by code_simp

text \<open>
  C8 (as stated): the SPI status is true only when \<^verbatim>\<open>/dev/spidev0.0\<close> exists and the boot
  configuration has both directives.  The code accepts either device node: with only
  \<^verbatim>\<open>/dev/spidev0.1\<close> present and both directives written, the check is true although
  \<^verbatim>\<open>/dev/spidev0.0\<close> does not exist.
\<close>

theorem check_spi_status_counterexample:
  "check_spi_status second_chip_select_only
   \<and> \<not> os_path_exists ''/dev/spidev0.0'' second_chip_select_only"
  using spi_lines_have_both
  by (simp add: check_spi_status_def second_chip_select_only_def quiet_def
      os_path_exists_def open_read_def BOOT_CONFIG_FILE_def)

text \<open>
  C8 (amended): the SPI status is true exactly when \<^verbatim>\<open>/dev/spidev0.0\<close> or
  \<^verbatim>\<open>/dev/spidev0.1\<close> exists and the boot configuration file can be read and contains both
  \<^verbatim>\<open>dtparam=spi=on\<close> and \<^verbatim>\<open>dtoverlay=spi0-0cs\<close>; if the device condition, the first
  directive or the second directive fails, the status is false.
\<close>

theorem check_spi_status_iff:
  "check_spi_status w \<longleftrightarrow>
     (fs w ''/dev/spidev0.0'' \<noteq> None \<or> fs w ''/dev/spidev0.1'' \<noteq> None)
     \<and> (\<exists>c. fs w BOOT_CONFIG_FILE = Some c
             \<and> py_in ''dtparam=spi=on'' c \<and> py_in ''dtoverlay=spi0-0cs'' c)"
  by (auto simp: check_spi_status_def os_path_exists_def open_read_def Let_def
      split: option.splits)

theorem check_spi_status_iff_witness:
  "check_spi_status second_chip_select_only
   \<and> fs second_chip_select_only ''/dev/spidev0.1'' \<noteq> None
   \<and> fs second_chip_select_only BOOT_CONFIG_FILE = Some spi_lines"
  using check_spi_status_iff [of second_chip_select_only] spi_lines_have_both
  by (simp add: second_chip_select_only_def quiet_def BOOT_CONFIG_FILE_def)

subsection \<open>The edit procedures of the GTK front end: shared lemmas\<close>

lemma run_command_eq:
  "run_command cmd t i w =
     (as_meshtastic cmd (fst (subprocess_run cmd (Some (effective t)) i w)),
      snd (subprocess_run cmd (Some (effective t)) i w))"
  by (simp add: run_command_def as_meshtastic_def effective_def Let_def
      split: prod.splits sum.splits)

lemma as_meshtastic_simps [simp]:
  "as_meshtastic cmd (Inr c) = Inr c" "isl (as_meshtastic cmd r) = isl r"
  by (simp_all add: as_meshtastic_def split: sum.splits)

lemma respond_tool:
  "tool cmd (case i of None \<Rightarrow> [] | Some s \<Rightarrow> s) w = Some (c, v) \<Longrightarrow>
   respond cmd t i w =
     (case faults w cmd of None \<Rightarrow> (Inr c, v) | Some b \<Rightarrow> (deliver cmd t b, w))"
  by (simp add: respond_def split: option.splits)

lemma deliver_isl: "isl (deliver cmd (Some t) b) \<longleftrightarrow> raises (Some b)"
  by (simp add: deliver_def raises_def split: behaviour.splits)

lemma deliver_finishes: "\<not> raises (Some b) \<Longrightarrow> deliver cmd t b = Inr (finished (Some b) c)"
  by (simp add: deliver_def raises_def finished_def split: behaviour.splits)

lemma run_command_tool:
  assumes "tool cmd (case i of None \<Rightarrow> [] | Some s \<Rightarrow> s) w = Some (c, v)"
    and "run_command cmd t i w = (r, w')"
  shows "\<exists>r0. w' = emit (Exec cmd r0) (if faults w cmd = None then v else w)"
    and "isl r \<longleftrightarrow> raises (faults w cmd)"
    and "\<not> isl r \<Longrightarrow> r = Inr (finished (faults w cmd) c)"
proof -
  show "\<exists>r0. w' = emit (Exec cmd r0) (if faults w cmd = None then v else w)"
    using assms(2) unfolding run_command_eq subprocess_run_def respond_tool [OF assms(1)]
    by (cases "faults w cmd") auto
  show iff: "isl r \<longleftrightarrow> raises (faults w cmd)"
    using assms(2) unfolding run_command_eq subprocess_run_def respond_tool [OF assms(1)]
    by (cases "faults w cmd") (auto simp: deliver_isl, simp add: raises_def)
  show "r = Inr (finished (faults w cmd) c)" if "\<not> isl r"
  proof (cases "faults w cmd")
    case None
    then show ?thesis
      using assms(2) unfolding run_command_eq subprocess_run_def respond_tool [OF assms(1)]
      by (auto simp: finished_def)
  next
    case (Some b)
    then have "\<not> raises (Some b)" using that iff by simp
    from deliver_finishes [OF this, of cmd "Some (effective t)" c] show ?thesis
      using assms(2) Some unfolding run_command_eq subprocess_run_def respond_tool [OF assms(1)]
      by auto
  qed
qed

lemma emits_simps [simp]:
  "emits [] w = w" "emit e w = emits [e] w" "logging_info m w = emits [LogInfo m] w"
  "emits es (emits es' w) = emits (es' @ es) w"
  by (simp_all add: emits_def emit_def logging_info_def)

lemma enable_spi_edit_shape: "enable_spi_edit c w = edit_of spi_shape c w"
  unfolding enable_spi_edit_def edit_of_def spi_shape_def spi_changed_def spi_new_def spi_pre_def
  by (cases "py_in ''dtparam=spi=on'' c";
      cases "py_in ''dtoverlay=spi0-0cs'' c";
      cases "py_in ''dtoverlay=spi0-0cs'' (c @ ''\<newline># SPI Configuration\<newline>dtparam=spi=on\<newline>'')")
     (simp_all split: prod.splits sum.splits)

lemma enable_i2c_edit_shape: "enable_i2c_edit c w = edit_of i2c_shape c w"
  unfolding enable_i2c_edit_def edit_of_def i2c_shape_def
  by (simp split: prod.splits sum.splits)

lemma configure_meshadv_mini_edit_shape:
  "configure_meshadv_mini_edit c w = edit_of meshadv_shape c w"
  unfolding configure_meshadv_mini_edit_def edit_of_def meshadv_shape_def
  by (simp split: prod.splits sum.splits)

lemma enable_spi_shape: "enable_spi w = proc_of spi_shape w"
  unfolding enable_spi_def enable_spi_try_def proc_of_def try_of_def read_of_def
    enable_spi_edit_shape
  by (simp add: spi_shape_def split: prod.splits sum.splits)

lemma enable_i2c_shape: "enable_i2c w = proc_of i2c_shape w"
  unfolding enable_i2c_def enable_i2c_try_def proc_of_def try_of_def read_of_def
    enable_i2c_edit_shape
  by (simp add: i2c_shape_def split: prod.splits sum.splits)

lemma configure_meshadv_mini_shape: "configure_meshadv_mini w = proc_of meshadv_shape w"
  unfolding configure_meshadv_mini_def configure_meshadv_mini_try_def proc_of_def try_of_def
    read_of_def configure_meshadv_mini_edit_shape
  by (simp add: meshadv_shape_def split: prod.splits sum.splits)

lemma emits_fields [simp]:
  "fs (emits es w) = fs w" "procs (emits es w) = procs w" "now (emits es w) = now w"
  "faults (emits es w) = faults w" "script (emits es w) = script w"
  "trace (emits es w) = trace w @ es"
  by (simp_all add: emits_def)

lemma sudo_step:
  assumes "tool (''sudo'' # cmd) (case i of None \<Rightarrow> [] | Some s \<Rightarrow> s) w = Some (c, v)"
    and "run_sudo_command cmd t i w = (r, w')"
  obtains r0 where
    "w' = emits [Exec (''sudo'' # cmd) r0] (if faults w (''sudo'' # cmd) = None then v else w)"
    "isl r \<longleftrightarrow> raises (faults w (''sudo'' # cmd))"
    "\<not> isl r \<Longrightarrow> r = Inr (finished (faults w (''sudo'' # cmd)) c)"
  using run_command_tool [OF assms(1) assms(2) [unfolded run_sudo_command_def]]
  by auto

lemma tool_v2 [simp]:
  "tool (''sudo'' # ''raspi-config'' # args) i w = Some (Completed 0 [] [], w)"
  "tool [''sudo'', ''cp'', a, b] i w = Some (cp a b w)"
  "tool [''sudo'', ''cat'', a] i w = Some (cat a w)"
  "tool [''sudo'', ''tee'', a] i w = Some (tee a i w)"
  by (simp_all add: tool_def killall_apt_def raspi_config_def)

lemma raspi_step:
  assumes "run_sudo_command (''raspi-config'' # args) t i w = (r, w')"
  obtains r0 where "w' = emits [Exec (''sudo'' # ''raspi-config'' # args) r0] w"
    "isl r \<longleftrightarrow> raises (faults w (''sudo'' # ''raspi-config'' # args))"
  using sudo_step [OF _ assms, of "Completed 0 [] []" w] by auto

lemma backup_step:
  assumes "backup_file BOOT_CONFIG_FILE w = (r, w')"
  obtains r1 where "w' = emits [Exec (cp_cmd w) r1] (backed w)"
    "isl r \<longleftrightarrow> raises (faults w (cp_cmd w))"
    "\<not> isl r \<Longrightarrow> r = Inr (bp w)"
proof -
  obtain r' where a: "run_sudo_command [''cp'', BOOT_CONFIG_FILE, bp w] None None w = (r', w')"
    and b: "isl r = isl r'" "\<not> isl r \<Longrightarrow> r = Inr (bp w)"
    using assms by (auto simp: backup_file_def Let_def bp_def split: prod.splits sum.splits)
  obtain c v where cv: "cp BOOT_CONFIG_FILE (bp w) w = (c, v)"
    by (cases "cp BOOT_CONFIG_FILE (bp w) w")
  from sudo_step [OF _ a, of c v] cv obtain r0 where
    "w' = emits [Exec (cp_cmd w) r0] (if faults w (cp_cmd w) = None then v else w)"
    "isl r' \<longleftrightarrow> raises (faults w (cp_cmd w))"
    by (auto simp: cp_cmd_def)
  then show ?thesis using that [of r0] b cv by (simp add: backed_def)
qed

lemma cat_step:
  assumes "run_sudo_command [''cat'', BOOT_CONFIG_FILE] None None w = (r, w')"
  obtains r2 where "w' = emits [Exec cat_cmd r2] w"
    "isl r \<longleftrightarrow> raises (faults w cat_cmd)"
    "\<not> isl r \<Longrightarrow> \<exists>c. r = Inr c \<and> stdout c = cat_text w"
proof -
  obtain c v where cv: "cat BOOT_CONFIG_FILE w = (c, v)" by (cases "cat BOOT_CONFIG_FILE w")
  then have v: "v = w" by (auto simp: cat_def split: option.splits)
  from sudo_step [OF _ assms, of c v] cv obtain r0 where
    "w' = emits [Exec cat_cmd r0] (if faults w cat_cmd = None then v else w)"
    "isl r \<longleftrightarrow> raises (faults w cat_cmd)"
    "\<not> isl r \<Longrightarrow> r = Inr (finished (faults w cat_cmd) c)"
    by (auto simp: cat_cmd_def)
  then show ?thesis using that [of r0] cv v by (simp add: cat_text_def)
qed

lemma tee_step:
  assumes "run_sudo_command [''tee'', BOOT_CONFIG_FILE] None (Some x) w = (r, w')"
  obtains r3 where "w' = emits [Exec tee_cmd r3] (teed x w)"
    "isl r \<longleftrightarrow> raises (faults w tee_cmd)"
proof -
  from sudo_step [OF _ assms, of "Completed 0 x []" "w\<lparr>fs := (fs w)(BOOT_CONFIG_FILE \<mapsto> x)\<rparr>"]
  obtain r0 where
    "w' = emits [Exec tee_cmd r0]
            (if faults w tee_cmd = None then w\<lparr>fs := (fs w)(BOOT_CONFIG_FILE \<mapsto> x)\<rparr> else w)"
    "isl r \<longleftrightarrow> raises (faults w tee_cmd)"
    by (auto simp: tee_cmd_def tee_def)
  then show ?thesis using that [of r0] by (simp add: teed_def)
qed

lemma backed_fields [simp]:
  "faults (backed w) = faults w" "now (backed w) = now w" "trace (backed w) = trace w"
  "fs (backed w) BOOT_CONFIG_FILE = fs w BOOT_CONFIG_FILE"
  by (auto simp: backed_def cp_def bp_def split: option.splits)

lemma teed_fields [simp]:
  "faults (teed c w) = faults w" "now (teed c w) = now w" "trace (teed c w) = trace w"
  by (auto simp: teed_def)

lemma cat_text_cong:
  "faults v = faults w \<Longrightarrow> fs v BOOT_CONFIG_FILE = fs w BOOT_CONFIG_FILE \<Longrightarrow> cat_text v = cat_text w"
  by (simp add: cat_text_def cat_def split: option.splits)

lemma cmd_cong [simp]: "cp_cmd (emits es w) = cp_cmd w" "bp (emits es w) = bp w"
  "backed (emits es w) = emits es (backed w)" "teed c (emits es w) = emits es (teed c w)"
  by (auto simp: cp_cmd_def bp_def backed_def teed_def emits_def cp_def split: option.splits)

lemma writes_file_simps [simp]:
  "writes_file f [] = False"
  "writes_file f (es @ es') = (writes_file f es \<or> writes_file f es')"
  "writes_file f (LogInfo m # es) = writes_file f es"
  "writes_file f (Exec argv r # es) = (argv = [''sudo'', ''tee'', f] \<or> writes_file f es)"
  by (auto simp: writes_file_def)

lemma edit_of_sum:
  assumes "edit_of sh c w = (r, w')"
  obtains es where "w' = emits es (if changed sh c then teed (new sh c) w else w)"
    "\<not> changed sh c \<Longrightarrow> es = LogInfo (same_msg sh) # same_rest sh"
    "isl r \<longleftrightarrow> changed sh c \<and> raises (faults w tee_cmd)"
    "\<not> isl r \<Longrightarrow> r = Inr (res sh)"
proof (cases "changed sh c")
  case False
  then show ?thesis using assms that [of "LogInfo (same_msg sh) # same_rest sh"]
    by (auto simp: edit_of_def)
next
  case True
  obtain r' v where a: "run_sudo_command [''tee'', BOOT_CONFIG_FILE] None (Some (new sh c))
                          (emits (pre sh c) w) = (r', v)"
    by (cases "run_sudo_command [''tee'', BOOT_CONFIG_FILE] None (Some (new sh c))
                          (emits (pre sh c) w)")
  from tee_step [OF a] obtain r3 where
    v: "v = emits [Exec tee_cmd r3] (teed (new sh c) (emits (pre sh c) w))"
    and r': "isl r' \<longleftrightarrow> raises (faults w tee_cmd)" by auto
  show ?thesis
  proof (cases r')
    case (Inl e)
    then show ?thesis using assms True a v r' that [of "pre sh c @ [Exec tee_cmd r3]"]
      by (auto simp add: edit_of_def)
  next
    case (Inr x)
    then show ?thesis using assms True a v r' that [of "pre sh c @ [Exec tee_cmd r3] @ post sh"]
      by (auto simp add: edit_of_def)
  qed
qed

lemma read_of_sum:
  assumes "read_of sh w = (r, w')" and wf: "wf_shape sh"
  obtains es where
    "w' = emits es (if raises (faults w (cp_cmd w)) then w
                    else if raises (faults w cat_cmd) then backed w
                    else if changed sh (cat_text w) then teed (new sh (cat_text w)) (backed w)
                    else backed w)"
    "\<exists>r1 es'. es = Exec (cp_cmd w) r1 # es'"
    "raises (faults w (cp_cmd w)) \<or> raises (faults w cat_cmd) \<or> \<not> changed sh (cat_text w)
       \<Longrightarrow> \<not> writes_file BOOT_CONFIG_FILE es"
    "\<not> raises (faults w (cp_cmd w)) \<Longrightarrow> \<not> raises (faults w cat_cmd)
       \<Longrightarrow> \<not> changed sh (cat_text w) \<Longrightarrow> LogInfo (same_msg sh) \<in> set es"
    "isl r \<longleftrightarrow> raises (faults w (cp_cmd w)) \<or> raises (faults w cat_cmd)
               \<or> changed sh (cat_text w) \<and> raises (faults w tee_cmd)"
    "\<not> isl r \<Longrightarrow> r = Inr (res sh)"
proof -
  obtain rb w2 where b: "backup_file BOOT_CONFIG_FILE w = (rb, w2)"
    by (cases "backup_file BOOT_CONFIG_FILE w")
  from backup_step [OF b] obtain r1 where
    w2: "w2 = emits [Exec (cp_cmd w) r1] (backed w)"
    and rb: "isl rb \<longleftrightarrow> raises (faults w (cp_cmd w))" "\<not> isl rb \<Longrightarrow> rb = Inr (bp w)"
    by blast
  show ?thesis
  proof (cases "raises (faults w (cp_cmd w))")
    case True
    then obtain e where "rb = Inl e" using rb(1) by (cases rb) auto
    moreover have "backed w = w" using True by (auto simp: backed_def raises_def)
    ultimately show ?thesis using assms(1) b w2 True that [of "[Exec (cp_cmd w) r1]"]
      by (auto simp add: read_of_def cp_cmd_def)
  next
    case nocp: False
    then have rb': "rb = Inr (bp w)" using rb by simp
    let ?w2 = "emits [LogInfo (''Backed up config.txt to '' @ bp w)] w2"
    obtain rc w3 where c: "run_sudo_command [''cat'', BOOT_CONFIG_FILE] None None ?w2 = (rc, w3)"
      by (cases "run_sudo_command [''cat'', BOOT_CONFIG_FILE] None None ?w2")
    have ct: "cat_text ?w2 = cat_text w"
      by (rule cat_text_cong) (simp_all add: w2)
    from cat_step [OF c] obtain r2 where
      w3: "w3 = emits [Exec cat_cmd r2] ?w2"
      and rc: "isl rc \<longleftrightarrow> raises (faults w cat_cmd)"
        "\<not> isl rc \<Longrightarrow> \<exists>c. rc = Inr c \<and> stdout c = cat_text w"
      using ct by (auto simp: w2)
    have rd: "read_of sh w = (case rc of Inl e \<Rightarrow> (Inl e, w3)
                              | Inr result \<Rightarrow> edit_of sh (stdout result) w3)"
      by (simp add: read_of_def b rb' c [simplified])
    show ?thesis
    proof (cases "raises (faults w cat_cmd)")
      case True
      then obtain e where "rc = Inl e" using rc(1) by (cases rc) auto
      then show ?thesis
        using assms(1) rd w3 w2 nocp True
          that [of "[Exec (cp_cmd w) r1, LogInfo (''Backed up config.txt to '' @ bp w),
                     Exec cat_cmd r2]"]
        by (auto simp: cp_cmd_def cat_cmd_def)
    next
      case nocat: False
      then obtain cc where cc: "rc = Inr cc" "stdout cc = cat_text w" using rc by auto
      then have ed: "edit_of sh (cat_text w) w3 = (r, w')" using assms(1) rd by simp
      from edit_of_sum [OF ed] obtain es where
        es: "w' = emits es (if changed sh (cat_text w) then teed (new sh (cat_text w)) w3 else w3)"
          "\<not> changed sh (cat_text w) \<Longrightarrow> es = LogInfo (same_msg sh) # same_rest sh"
          "isl r \<longleftrightarrow> changed sh (cat_text w) \<and> raises (faults w3 tee_cmd)"
          "\<not> isl r \<Longrightarrow> r = Inr (res sh)"
        by blast
      let ?es = "[Exec (cp_cmd w) r1, LogInfo (''Backed up config.txt to '' @ bp w),
                  Exec cat_cmd r2] @ es"
      have 1: "w' = emits ?es (if changed sh (cat_text w)
                 then teed (new sh (cat_text w)) (backed w) else backed w)"
        using es(1) by (simp add: w3 w2)
      have 2: "\<not> writes_file BOOT_CONFIG_FILE ?es \<and> LogInfo (same_msg sh) \<in> set ?es"
        if "\<not> changed sh (cat_text w)"
        using es(2) [OF that] wf
        by (simp add: wf_shape_def cp_cmd_def cat_cmd_def)
      have 3: "isl r \<longleftrightarrow> changed sh (cat_text w) \<and> raises (faults w tee_cmd)"
        using es(3) by (simp add: w3 w2)
      show ?thesis using that [of ?es] 1 2 3 es(4) nocp nocat by simp
    qed
  qed
qed

lemma proc_of_sum:
  assumes wf: "wf_shape sh"
  obtains es where
    "snd (proc_of sh w) = emits es (final sh w)"
    "\<And>args. pre_cmd sh = Some args
        \<Longrightarrow> \<exists>r0 es'. es = LogInfo (start sh) # Exec (''sudo'' # args) r0 # es'"
    "\<not> pre_raises sh w \<Longrightarrow> \<exists>r1. Exec (cp_cmd w) r1 \<in> set es"
    "pre_raises sh w \<or> raises (faults w (cp_cmd w)) \<or> raises (faults w cat_cmd)
       \<or> \<not> changed sh (cat_text w) \<Longrightarrow> \<not> writes_file BOOT_CONFIG_FILE es"
    "\<not> pre_raises sh w \<Longrightarrow> \<not> raises (faults w (cp_cmd w)) \<Longrightarrow> \<not> raises (faults w cat_cmd)
       \<Longrightarrow> \<not> changed sh (cat_text w) \<Longrightarrow> LogInfo (same_msg sh) \<in> set es"
    "isl (fst (proc_of sh w)) \<longleftrightarrow>
       pre_raises sh w \<or> raises (faults w (cp_cmd w)) \<or> raises (faults w cat_cmd)
       \<or> changed sh (cat_text w) \<and> raises (faults w tee_cmd)"
    "\<not> isl (fst (proc_of sh w)) \<Longrightarrow> fst (proc_of sh w) = Inr (res sh)"
proof -
  note conclude = that
  let ?w0 = "emits [LogInfo (start sh)] w"
  have snd_proc: "snd (proc_of sh w) = snd (try_of sh w)"
    and fst_proc: "fst (try_of sh w) = Inr x \<Longrightarrow> fst (proc_of sh w) = Inr x"
    and isl_proc: "isl (fst (proc_of sh w)) = isl (fst (try_of sh w))" for x
    by (auto simp: proc_of_def split: prod.splits sum.splits)
  have ct0: "cat_text ?w0 = cat_text w" by (rule cat_text_cong) simp_all
  have readcase: thesis
    if rd: "try_of sh w = read_of sh v" and v: "v = emits pes w"
      and pes: "\<And>args. pre_cmd sh = Some args
                  \<Longrightarrow> \<exists>r0. pes = [LogInfo (start sh), Exec (''sudo'' # args) r0]"
      and nopre: "\<not> pre_raises sh w" and nw: "\<not> writes_file BOOT_CONFIG_FILE pes" for v pes
  proof -
    obtain r w' where rw: "read_of sh v = (r, w')" by (cases "read_of sh v")
    have ctv: "cat_text v = cat_text w" by (rule cat_text_cong) (simp_all add: v)
    from read_of_sum [OF rw wf] obtain es where
      es: "w' = emits es (if raises (faults v (cp_cmd v)) then v
                    else if raises (faults v cat_cmd) then backed v
                    else if changed sh (cat_text v) then teed (new sh (cat_text v)) (backed v)
                    else backed v)"
        "\<exists>r1 es'. es = Exec (cp_cmd v) r1 # es'"
        "raises (faults v (cp_cmd v)) \<or> raises (faults v cat_cmd) \<or> \<not> changed sh (cat_text v)
           \<Longrightarrow> \<not> writes_file BOOT_CONFIG_FILE es"
        "\<not> raises (faults v (cp_cmd v)) \<Longrightarrow> \<not> raises (faults v cat_cmd)
           \<Longrightarrow> \<not> changed sh (cat_text v) \<Longrightarrow> LogInfo (same_msg sh) \<in> set es"
        "isl r \<longleftrightarrow> raises (faults v (cp_cmd v)) \<or> raises (faults v cat_cmd)
               \<or> changed sh (cat_text v) \<and> raises (faults v tee_cmd)"
        "\<not> isl r \<Longrightarrow> r = Inr (res sh)"
      by blast
    have fr: "fst (try_of sh w) = r" by (simp add: rd rw)
    have "snd (proc_of sh w) = w'" by (simp add: snd_proc rd rw)
    moreover have "w' = emits (pes @ es) (final sh w)"
      using es(1) nopre unfolding ctv by (simp add: final_def v)
    ultimately have 1: "snd (proc_of sh w) = emits (pes @ es) (final sh w)" by simp
    have 2: "\<exists>r0 es'. pes @ es = LogInfo (start sh) # Exec (''sudo'' # args) r0 # es'"
      if "pre_cmd sh = Some args" for args
      using pes [OF that] by auto
    have 3: "\<exists>r1. Exec (cp_cmd w) r1 \<in> set (pes @ es)"
      using es(2) by (auto simp: v)
    have 4: "\<not> writes_file BOOT_CONFIG_FILE (pes @ es)"
      if "pre_raises sh w \<or> raises (faults w (cp_cmd w)) \<or> raises (faults w cat_cmd)
           \<or> \<not> changed sh (cat_text w)"
      using es(3) [unfolded ctv] that nw nopre by (simp add: v)
    have 5: "LogInfo (same_msg sh) \<in> set (pes @ es)"
      if "\<not> raises (faults w (cp_cmd w))" "\<not> raises (faults w cat_cmd)"
        "\<not> changed sh (cat_text w)"
      using es(4) [unfolded ctv] that by (simp add: v)
    have 6: "isl (fst (proc_of sh w)) \<longleftrightarrow>
       pre_raises sh w \<or> raises (faults w (cp_cmd w)) \<or> raises (faults w cat_cmd)
       \<or> changed sh (cat_text w) \<and> raises (faults w tee_cmd)"
      using es(5) [unfolded ctv] nopre by (simp add: isl_proc fr v)
    have 7: "fst (proc_of sh w) = Inr (res sh)" if "\<not> isl (fst (proc_of sh w))"
      using es(6) that fst_proc [of "res sh"] by (simp add: isl_proc fr)
    show thesis using conclude [of "pes @ es"] 1 2 3 4 5 6 7 by blast
  qed
  show thesis
  proof (cases "pre_cmd sh")
    case None
    have "try_of sh w = read_of sh ?w0" by (simp add: try_of_def None)
    then show ?thesis
      by (rule readcase [where pes = "[LogInfo (start sh)]"])
         (simp_all add: None pre_raises_def)
  next
    case (Some args)
    then obtain rest where args: "args = ''raspi-config'' # rest"
      using wf by (cases args) (auto simp: wf_shape_def)
    obtain rp w1 where p: "run_sudo_command args None None ?w0 = (rp, w1)"
      by (cases "run_sudo_command args None None ?w0")
    from raspi_step [OF p [unfolded args]] obtain r0 where
      w1: "w1 = emits [LogInfo (start sh), Exec (''sudo'' # args) r0] w"
      and rp: "isl rp \<longleftrightarrow> pre_raises sh w"
      by (auto simp: args pre_raises_def Some)
    show ?thesis
    proof (cases "pre_raises sh w")
      case True
      then obtain e where "rp = Inl e" using rp by (cases rp) auto
      then have "snd (proc_of sh w) = emits [LogInfo (start sh), Exec (''sudo'' # args) r0] (final sh w)"
        and "isl (fst (proc_of sh w))"
        using True by (simp_all add: snd_proc isl_proc try_of_def Some p w1 final_def)
      then show ?thesis
        using conclude [of "[LogInfo (start sh), Exec (''sudo'' # args) r0]"] True Some args
        by simp
    next
      case False
      then obtain x where "rp = Inr x" using rp by (cases rp) auto
      then have "try_of sh w = read_of sh w1" by (simp add: try_of_def Some p)
      then show ?thesis
        by (rule readcase [where pes = "[LogInfo (start sh), Exec (''sudo'' # args) r0]"])
           (simp_all add: w1 Some False args)
    qed
  qed
qed


lemma final_frame [simp]: "faults (final sh w) = faults w" "now (final sh w) = now w"
  "trace (final sh w) = trace w"
  by (simp_all add: final_def)

lemma teed_boot:
  "fs (teed c w) BOOT_CONFIG_FILE = (if faults w tee_cmd = None then Some c else fs w BOOT_CONFIG_FILE)"
  by (simp add: teed_def)

lemma final_boot:
  "fs (final sh w) BOOT_CONFIG_FILE =
     (if pre_raises sh w \<or> raises (faults w (cp_cmd w)) \<or> raises (faults w cat_cmd)
      then fs w BOOT_CONFIG_FILE
      else if changed sh (cat_text w) \<and> faults w tee_cmd = None
           then Some (new sh (cat_text w))
      else fs w BOOT_CONFIG_FILE)"
  by (simp add: final_def teed_boot)

lemma proc_frame:
  assumes "wf_shape sh"
  shows "faults (snd (proc_of sh w)) = faults w" "now (snd (proc_of sh w)) = now w"
    "fs (snd (proc_of sh w)) = fs (final sh w)"
    "trace (snd (proc_of sh w)) = trace w @ added w (snd (proc_of sh w))"
proof -
  from proc_of_sum [OF assms, of w] obtain es where "snd (proc_of sh w) = emits es (final sh w)"
    by metis
  then show "faults (snd (proc_of sh w)) = faults w" "now (snd (proc_of sh w)) = now w"
    "fs (snd (proc_of sh w)) = fs (final sh w)"
    "trace (snd (proc_of sh w)) = trace w @ added w (snd (proc_of sh w))"
    by (simp_all add: added_def)
qed

lemma cat_text_unfaulted:
  "faults w cat_cmd = None \<Longrightarrow>
   cat_text w = (case fs w BOOT_CONFIG_FILE of None \<Rightarrow> [] | Some c \<Rightarrow> c)"
  by (simp add: cat_text_def finished_def cat_def split: option.splits)

lemma cat_text_faulted:
  "faults v = faults w \<Longrightarrow> faults w cat_cmd \<noteq> None \<Longrightarrow> \<not> raises (faults w cat_cmd)
   \<Longrightarrow> cat_text v = cat_text w"
  by (auto simp: cat_text_def finished_def raises_def split: option.splits behaviour.splits)

lemma proc_idem:
  assumes wf: "wf_shape sh" and stable: "\<And>c. \<not> changed sh (new sh c)"
  shows "fs (snd (proc_of sh (snd (proc_of sh w)))) BOOT_CONFIG_FILE
           = fs (snd (proc_of sh w)) BOOT_CONFIG_FILE"
proof -
  let ?w1 = "snd (proc_of sh w)"
  have f: "faults ?w1 = faults w" "now ?w1 = now w" using proc_frame [OF wf] by simp_all
  have c: "pre_raises sh ?w1 = pre_raises sh w" "cp_cmd ?w1 = cp_cmd w"
    by (simp_all add: pre_raises_def cp_cmd_def bp_def f split: option.splits)
  have b1: "fs ?w1 BOOT_CONFIG_FILE = fs (final sh w) BOOT_CONFIG_FILE"
    and b2: "fs (snd (proc_of sh ?w1)) BOOT_CONFIG_FILE = fs (final sh ?w1) BOOT_CONFIG_FILE"
    using proc_frame(3) [OF wf] by simp_all
  show ?thesis
  proof (cases "pre_raises sh w \<or> raises (faults w (cp_cmd w)) \<or> raises (faults w cat_cmd)")
    case True
    then show ?thesis unfolding b2 b1 final_boot c f by simp
  next
    case False
    show ?thesis
    proof (cases "faults w cat_cmd = None")
      case faulted: False
      have "cat_text ?w1 = cat_text w"
        by (rule cat_text_faulted) (use f faulted False in simp_all)
      then show ?thesis unfolding b2 b1 final_boot c f by simp
    next
      case None: True
      show ?thesis
      proof (cases "changed sh (cat_text w) \<and> faults w tee_cmd = None")
        case True
        then have "fs ?w1 BOOT_CONFIG_FILE = Some (new sh (cat_text w))"
          unfolding b1 final_boot using False by simp
        then have "cat_text ?w1 = new sh (cat_text w)"
          using None f by (simp add: cat_text_unfaulted)
        then show ?thesis unfolding b2 final_boot c f using stable by simp
      next
        case same: False
        then have "fs ?w1 BOOT_CONFIG_FILE = fs w BOOT_CONFIG_FILE"
          unfolding b1 final_boot by auto
        then have "cat_text ?w1 = cat_text w"
          using None f by (simp add: cat_text_unfaulted)
        then show ?thesis unfolding b2 b1 final_boot c f by simp
      qed
    qed
  qed
qed




lemma py_in_appendL: "py_in m c \<Longrightarrow> py_in m (c @ s)"
  by (metis append.assoc sublist_def)

lemma py_in_appendR: "py_in m s \<Longrightarrow> py_in m (c @ s)"
  by (metis append.assoc sublist_def)

lemma spi_blocks:
  "py_in ''dtparam=spi=on'' ''\<newline># SPI Configuration\<newline>dtparam=spi=on\<newline>''"
  "py_in ''dtoverlay=spi0-0cs'' ''dtoverlay=spi0-0cs\<newline>''"
  "\<not> py_in ''dtoverlay=spi0-0cs'' ''\<newline># SPI Configuration\<newline>dtparam=spi=on\<newline>''"
  "\<not> py_in ''dtparam=spi=on'' (''\<newline># SPI Configuration\<newline>'' @ ''dtoverlay=spi0-0cs\<newline>'')"
  "py_in ''dtparam=i2c_arm=on'' ''\<newline># I2C Configuration\<newline>dtparam=i2c_arm=on\<newline>''"
  "py_in ''MeshAdv Mini Configuration'' meshadv_config"
  by code_simp+

lemma wf_shapes: "wf_shape spi_shape" "wf_shape i2c_shape" "wf_shape meshadv_shape"
  by (simp_all add: wf_shape_def spi_shape_def i2c_shape_def meshadv_shape_def)

lemma spi_new_cases:
  fixes c :: string
  defines "P1 \<equiv> ''\<newline># SPI Configuration\<newline>dtparam=spi=on\<newline>''"
    and "H \<equiv> ''\<newline># SPI Configuration\<newline>''" and "L \<equiv> ''dtoverlay=spi0-0cs\<newline>''"
  shows "spi_new c =
           (if py_in ''dtparam=spi=on'' c
            then (if py_in ''dtoverlay=spi0-0cs'' c then c else c @ (H @ L))
            else (if py_in ''dtoverlay=spi0-0cs'' (c @ P1) then c @ P1 else c @ (P1 @ L)))"
    and "spi_changed c =
           (if py_in ''dtparam=spi=on'' c then \<not> py_in ''dtoverlay=spi0-0cs'' c else True)"
  by (simp_all add: spi_new_def spi_changed_def Let_def P1_def H_def L_def)

lemma spi_joined:
  "py_in ''dtparam=spi=on'' (''\<newline># SPI Configuration\<newline>dtparam=spi=on\<newline>'' @ ''dtoverlay=spi0-0cs\<newline>'')"
  "py_in ''dtoverlay=spi0-0cs'' (''\<newline># SPI Configuration\<newline>dtparam=spi=on\<newline>'' @ ''dtoverlay=spi0-0cs\<newline>'')"
  "py_in ''dtoverlay=spi0-0cs'' (''\<newline># SPI Configuration\<newline>'' @ ''dtoverlay=spi0-0cs\<newline>'')"
  by code_simp+

lemma spi_new_has: "py_in ''dtparam=spi=on'' (spi_new c)" "py_in ''dtoverlay=spi0-0cs'' (spi_new c)"
proof -
  show "py_in ''dtparam=spi=on'' (spi_new c)"
    unfolding spi_new_cases
    using py_in_appendL [of "''dtparam=spi=on''" c] py_in_appendR [OF spi_blocks(1), of c]
      py_in_appendR [OF spi_joined(1), of c]
    by (simp del: append.simps append_assoc)
  show "py_in ''dtoverlay=spi0-0cs'' (spi_new c)"
    unfolding spi_new_cases
    using py_in_appendR [OF spi_joined(2), of c] py_in_appendR [OF spi_joined(3), of c]
    by (simp del: append.simps append_assoc)
qed

lemma spi_changed_iff:
  "spi_changed c \<longleftrightarrow> \<not> (py_in ''dtparam=spi=on'' c \<and> py_in ''dtoverlay=spi0-0cs'' c)"
  unfolding spi_new_cases by simp

lemma stable_shapes:
  "\<not> changed spi_shape (new spi_shape c)" "\<not> changed i2c_shape (new i2c_shape c)"
  "\<not> changed meshadv_shape (new meshadv_shape c)"
proof -
  show "\<not> changed spi_shape (new spi_shape c)"
    using spi_new_has [of c] by (simp add: spi_shape_def spi_changed_iff)
  show "\<not> changed i2c_shape (new i2c_shape c)"
    unfolding i2c_shape_def using py_in_appendR [OF spi_blocks(5), of c] by simp
  show "\<not> changed meshadv_shape (new meshadv_shape c)"
    unfolding meshadv_shape_def using py_in_appendR [OF spi_blocks(6), of c] by simp
qed


lemma shapes_eq:
  "enable_spi = proc_of spi_shape" "enable_i2c = proc_of i2c_shape"
  "configure_meshadv_mini = proc_of meshadv_shape"
  by (rule ext, simp add: enable_spi_shape enable_i2c_shape configure_meshadv_mini_shape)+


subsection \<open>C4: what \<^verbatim>\<open>run_command\<close> returns and what it raises\<close>

text \<open>
  C4 (as stated): on time-out \<^verbatim>\<open>run_command\<close> returns a result with a time-out indicator
  rather than raising.  The code has a handler for \<^verbatim>\<open>subprocess.TimeoutExpired\<close> that raises
  \<^verbatim>\<open>MeshtasticError\<close>: a command that does not end within the limit makes the call raise.
\<close>

theorem run_command_timeout_counterexample:
  "fst (run_command [''meshtastic'', ''--info''] (Some 30) None hangs)
     = Inl (Exn MeshtasticError ''Command timed out: meshtastic --info'')"
  by code_simp

text \<open>
  C4 (amended): \<^verbatim>\<open>run_command\<close> returns the result of every command that was launched and
  ended within the limit, with its exit status in the result whatever it is (a non-zero
  exit status is not raised); it raises \<^verbatim>\<open>MeshtasticError\<close> with the text
  \<^verbatim>\<open>Command timed out: ...\<close> when the command does not end within the limit, and with the
  text \<^verbatim>\<open>Command failed: ...\<close> when the command cannot be launched.
\<close>

theorem run_command_outcomes:
  "fst (run_command cmd timeout input_text w) =
     (case reaction cmd input_text w of
        Finishes c \<Rightarrow> Inr c
      | Overruns c \<Rightarrow>
          Inl (Exn MeshtasticError (''Command timed out: '' @ join '' '' cmd))
      | Unlaunchable m \<Rightarrow> Inl (Exn MeshtasticError (''Command failed: '' @ m)))"
  unfolding run_command_eq subprocess_run_def respond_def reaction_def
  by (simp add: deliver_def as_meshtastic_def
      split: option.splits prod.splits list.splits behaviour.splits)

theorem run_command_outcomes_witness:
  "fst (run_command [''meshtastic'', ''--info''] None None exits_nonzero)
     = Inr (Completed 2 [] ''usage error'')"
  using run_command_outcomes [of "[''meshtastic'', ''--info'']" None None exits_nonzero]
  by (simp add: reaction_def exits_nonzero_def quiet_def tool_def killall_apt_def)

subsection \<open>C5: directives already present\<close>



subsection \<open>C9: running a procedure twice\<close>

text \<open>
  C9: for every world (any file content, the file missing, any injected faults), running
  an edit procedure twice in succession leaves the same boot configuration as running it
  once.
\<close>

theorem edit_twice_same:
  "fs (snd (enable_spi (snd (enable_spi w)))) BOOT_CONFIG_FILE
     = fs (snd (enable_spi w)) BOOT_CONFIG_FILE
   \<and> fs (snd (enable_i2c (snd (enable_i2c w)))) BOOT_CONFIG_FILE
     = fs (snd (enable_i2c w)) BOOT_CONFIG_FILE
   \<and> fs (snd (configure_meshadv_mini (snd (configure_meshadv_mini w)))) BOOT_CONFIG_FILE
     = fs (snd (configure_meshadv_mini w)) BOOT_CONFIG_FILE"
  unfolding shapes_eq
  using proc_idem [OF wf_shapes(1) stable_shapes(1)] proc_idem [OF wf_shapes(2) stable_shapes(2)]
    proc_idem [OF wf_shapes(3) stable_shapes(3)]
  by blast

theorem edit_twice_same_witness:
  "fs (snd (enable_spi (snd (enable_spi backup_disk_full)))) BOOT_CONFIG_FILE
     = Some ''# boot configuration\<newline>\<newline># SPI Configuration\<newline>dtparam=spi=on\<newline>dtoverlay=spi0-0cs\<newline>''"
proof -
  have "fs (snd (enable_spi backup_disk_full)) BOOT_CONFIG_FILE
     = Some ''# boot configuration\<newline>\<newline># SPI Configuration\<newline>dtparam=spi=on\<newline>dtoverlay=spi0-0cs\<newline>''"
    by code_simp
  then show ?thesis using edit_twice_same [of backup_disk_full] by simp
qed

subsection \<open>C10: the backup and the first command in the no-change case\<close>



subsection \<open>C6: a failed copy or write\<close>

text \<open>
  C6: the claim asks for an error when the backup copy or the final write fails.  With a
  copy that exits 1, \<^verbatim>\<open>_enable_spi\<close> returns success, there is no backup, and the file has
  been rewritten; with a write that exits 1 it returns success as well.
  \<^verbatim>\<open>run_command\<close> never looks at the exit status and neither \<^verbatim>\<open>backup_file\<close> nor the
  procedures do, although \<^verbatim>\<open>backup_file\<close> has a handler that is meant to report a failed
  backup, and the Tk front end runs the same three commands with \<^verbatim>\<open>check=True\<close>.
\<close>

theorem failed_steps_reported_as_success:
  "fst (enable_spi backup_disk_full) = Inr (OperationResult True ''SPI enabled successfully'' [])
   \<and> fs (snd (enable_spi backup_disk_full)) (BOOT_CONFIG_FILE @ ''.backup_20240101_120000'') = None
   \<and> fs (snd (enable_spi backup_disk_full)) BOOT_CONFIG_FILE
       = Some ''# boot configuration\<newline>\<newline># SPI Configuration\<newline>dtparam=spi=on\<newline>dtoverlay=spi0-0cs\<newline>''
   \<and> fst (enable_spi write_fails) = Inr (OperationResult True ''SPI enabled successfully'' [])
   \<and> fs (snd (enable_spi write_fails)) BOOT_CONFIG_FILE = Some ''# boot configuration\<newline>''"
  by code_simp

subsection \<open>C7: submitting an operation that is already running\<close>

text \<open>
  C7 (as stated): a second submission of an operation identifier that is still running is
  rejected with \<^verbatim>\<open>AlreadyRunningError\<close>.  The code has no such check and no such
  exception: the second submission is accepted and both work items run at the same time.
\<close>

theorem second_submission_counterexample:
  "items (snd (run_operation_with_progress ''enable_spi'' fresh_manager))
     = [(''enable_spi'', Running)]
   \<and> fst (run_operation_with_progress ''enable_spi''
            (snd (run_operation_with_progress ''enable_spi'' fresh_manager))) = Inr ()
   \<and> items (snd (run_operation_with_progress ''enable_spi''
            (snd (run_operation_with_progress ''enable_spi'' fresh_manager))))
     = [(''enable_spi'', Running), (''enable_spi'', Running)]"
  by code_simp

lemma start_pending_names: "map fst (start_pending n xs) = map fst xs"
  by (induction xs arbitrary: n) auto

lemma start_pending_snoc:
  "start_pending n (xs @ [(oid, Pending)]) =
     start_pending n xs
       @ [(oid, if length (filter (\<lambda>item. snd item = Pending) xs) < n then Running else Pending)]"
  by (induction xs arbitrary: n) auto

text \<open>
  C7 (amended): as long as the pool has not been shut down, every submission is accepted,
  whether the same identifier is running, has ended, or was never submitted; the new work
  item is queued under its identifier after the existing ones, and it runs at once when
  fewer than \<open>max_workers\<close> items are unfinished.
\<close>

theorem submission_always_accepted:
  assumes "\<not> shut tm"
  shows "fst (run_operation_with_progress oid tm) = Inr ()
       \<and> map fst (items (snd (run_operation_with_progress oid tm))) = map fst (items tm) @ [oid]
       \<and> (if length (filter (\<lambda>item. snd item \<noteq> Done) (items tm)) < max_workers tm
          then last (items (snd (run_operation_with_progress oid tm))) = (oid, Running)
          else True)"
proof -
  have split: "length (filter (\<lambda>item. snd item \<noteq> Done) xs)
      = length (filter (\<lambda>item. snd item = Running) xs)
        + length (filter (\<lambda>item. snd item = Pending) xs)" for xs :: "(string \<times> fstate) list"
    by (induction xs) (auto, (metis fstate.exhaust)+)
  have it: "items (snd (run_operation_with_progress oid tm))
      = start_pending (max_workers tm - length (filter (\<lambda>item. snd item = Running) (items tm)))
          (items tm @ [(oid, Pending)])"
    using assms
    by (simp add: run_operation_with_progress_def submit_task_def executor_submit_def dispatch_def)
  have "fst (run_operation_with_progress oid tm) = Inr ()"
    using assms by (simp add: run_operation_with_progress_def submit_task_def executor_submit_def)
  moreover have "map fst (items (snd (run_operation_with_progress oid tm))) = map fst (items tm) @ [oid]"
    unfolding it by (simp add: start_pending_names)
  moreover have "last (items (snd (run_operation_with_progress oid tm))) = (oid, Running)"
    if "length (filter (\<lambda>item. snd item \<noteq> Done) (items tm)) < max_workers tm"
    unfolding it start_pending_snoc using that split [of "items tm"] by simp
  ultimately show ?thesis by simp
qed

theorem submission_always_accepted_witness:
  "\<not> shut (worker_returns 0 (snd (run_operation_with_progress ''enable_spi'' fresh_manager)))
   \<and> items (worker_returns 0 (snd (run_operation_with_progress ''enable_spi'' fresh_manager)))
       = [(''enable_spi'', Done)]
   \<and> fst (run_operation_with_progress ''enable_spi''
        (worker_returns 0 (snd (run_operation_with_progress ''enable_spi'' fresh_manager))))
       = Inr ()
   \<and> last (items (snd (run_operation_with_progress ''enable_spi''
        (worker_returns 0 (snd (run_operation_with_progress ''enable_spi'' fresh_manager))))))
       = (''enable_spi'', Running)"
proof -
  let ?tm = "worker_returns 0 (snd (run_operation_with_progress ''enable_spi'' fresh_manager))"
  have a: "\<not> shut ?tm" "items ?tm = [(''enable_spi'', Done)]" "max_workers ?tm = 4"
    by code_simp+
  show ?thesis
    using submission_always_accepted [OF a(1), of "''enable_spi''"] a by simp
qed

end
